theory Spec2Isabelle
  imports Main "HOL-Library.Word"
begin

unbundle bit_operations_syntax

section \<open>Values shared by both passes\<close>

text \<open>
  The class-file decoder of \<^verbatim>\<open>class.go\<close> has two passes over the same bytes: the model
  pass \<^verbatim>\<open>ParseClass\<close>, which builds a \<^verbatim>\<open>Class\<close>, and the provenance pass
  \<^verbatim>\<open>parseClass\<close>, which builds a forest of \<^verbatim>\<open>Section\<close>s. Both read through
  \<^verbatim>\<open>byteParser\<close>. The unsigned types of Go are words of their width, a panic is the left
  summand of a sum, and Go's \<^verbatim>\<open>int\<close> is \<open>int\<close>: the offsets of a decode run past the length of the
  buffer by a few hundred thousand at most (an entry of the pool is only decoded while
  its tag comes from the buffer), far from the bounds of a machine \<^verbatim>\<open>int\<close>.
\<close>

type_synonym byte = "8 word"

datatype error = EOF | ErrUnexpectedEOF | BadMagicNumber

text \<open>The arguments of a \<^verbatim>\<open>fmt.Sprintf\<close> call. Floats are kept as their bit patterns.\<close>

datatype arg =
    U8 "8 word"
  | U16 "16 word"
  | I32 "32 word"
  | U64 "64 word"
  | F32 "32 word"
  | F64 "64 word"
  | GoInt int
  | GoBool bool
  | GoString string

text \<open>
  A label is a string literal or a \<^verbatim>\<open>fmt.Sprintf\<close> call, kept as its format and its
  arguments: the rendering belongs to Go's \<^verbatim>\<open>fmt\<close> package.
\<close>

datatype label = Text string | Sprintf string "arg list"

datatype panic =
    SliceBoundsOutOfRange
  | IndexOutOfRange
  | InterfaceConversion
  | LogPanicf label
  | ExplicitPanic label

definition bindp :: "panic + 'a \<Rightarrow> ('a \<Rightarrow> panic + 'b) \<Rightarrow> panic + 'b" where
  "bindp m f = (case m of Inl e \<Rightarrow> Inl e | Inr x \<Rightarrow> f x)"

section \<open>The cursor: byteParser\<close>

text \<open>
  \<^verbatim>\<open>reader\<close> is an \<^verbatim>\<open>io.Reader\<close> holding a pointer to a \<^verbatim>\<open>bytes.Reader\<close>: the model
  keeps the bytes not yet read. \<^verbatim>\<open>err\<close> is a plain field of the struct.
\<close>

record byteParser =
  reader :: "byte list"
  err :: "error option"

text \<open>
  \<^verbatim>\<open>io.ReadFull\<close> on a \<^verbatim>\<open>bytes.Reader\<close>, for a buffer of \<open>n > 0\<close> bytes: the bytes read,
  the bytes left, and the error (\<^verbatim>\<open>io.EOF\<close> when nothing was read,
  \<^verbatim>\<open>io.ErrUnexpectedEOF\<close> when fewer than \<open>n\<close> were).
\<close>

definition ReadFull :: "nat \<Rightarrow> byte list \<Rightarrow> byte list \<times> byte list \<times> error option" where
  "ReadFull n rd =
     (if n \<le> length rd then (take n rd, drop n rd, None)
      else (rd, [], Some (if rd = [] then EOF else ErrUnexpectedEOF)))"

definition BigEndian :: "byte list \<Rightarrow> 'a::len word" where
  "BigEndian bs = foldl (\<lambda>acc b. push_bit 8 acc OR ucast b) 0 bs"

text \<open>
  \<^verbatim>\<open>binary.Read(r.reader, binary.BigEndian, &x)\<close> for an unsigned integer of \<open>n\<close> bytes:
  \<open>x\<close> keeps its zero value when the read fails.
\<close>

definition binaryRead :: "nat \<Rightarrow> byte list \<Rightarrow> 'a::len word \<times> byte list \<times> error option" where
  "binaryRead n rd =
     (case ReadFull n rd of
        (bs, rd', e) \<Rightarrow> ((if e = None then BigEndian bs else 0), rd', e))"

text \<open>
  The bodies of \<^verbatim>\<open>u8\<close>, \<^verbatim>\<open>u4\<close>, \<^verbatim>\<open>u2\<close> and \<^verbatim>\<open>u1\<close>, run on the receiver \<open>r\<close>:
  the value returned and the receiver as the body leaves it.
\<close>

definition readBody :: "nat \<Rightarrow> byteParser \<Rightarrow> 'a::len word \<times> byteParser" where
  "readBody n r =
     (if err r \<noteq> None then (0, r)
      else (case binaryRead n (reader r) of
              (x, rd', e) \<Rightarrow> (x, r\<lparr>reader := rd', err := e\<rparr>)))"

text \<open>
  The methods are declared on the value, \<^verbatim>\<open>func (r byteParser) u2() uint16\<close>: the body runs
  on a copy of the caller's struct. Of what the body did, the caller sees the bytes consumed
  from the shared \<^verbatim>\<open>bytes.Reader\<close>; the assignment to \<^verbatim>\<open>r.err\<close> is made to the copy.
\<close>

definition callByValue :: "(byteParser \<Rightarrow> 'a \<times> byteParser) \<Rightarrow> byteParser \<Rightarrow> 'a \<times> byteParser" where
  "callByValue body r = (case body r of (x, r') \<Rightarrow> (x, r\<lparr>reader := reader r'\<rparr>))"

definition u8 :: "byteParser \<Rightarrow> 64 word \<times> byteParser" where
  "u8 r = callByValue (readBody 8) r"

definition u4 :: "byteParser \<Rightarrow> 32 word \<times> byteParser" where
  "u4 r = callByValue (readBody 4) r"

definition u2 :: "byteParser \<Rightarrow> 16 word \<times> byteParser" where
  "u2 r = callByValue (readBody 2) r"

definition u1 :: "byteParser \<Rightarrow> 8 word \<times> byteParser" where
  "u1 r = callByValue (readBody 1) r"

text \<open>\<^verbatim>\<open>byteSlice[start:]\<close> panics unless \<open>0 \<le> start \<le> len(byteSlice)\<close>.\<close>

definition newByteParser :: "byte list \<Rightarrow> int \<Rightarrow> panic + byteParser" where
  "newByteParser byteSlice start =
     (if 0 \<le> start \<and> start \<le> int (length byteSlice)
      then Inr \<lparr>reader = drop (nat start) byteSlice, err = None\<rparr>
      else Inl SliceBoundsOutOfRange)"

definition newClassDecoder :: "byte list \<Rightarrow> byteParser" where
  "newClassDecoder r =
     (let cr = \<lparr>reader = r, err = None\<rparr>;
          (magic, cr) = u4 cr
      in if magic \<noteq> 0xCAFEBABE then cr\<lparr>err := Some BadMagicNumber\<rparr> else cr)"

section \<open>The provenance pass\<close>

datatype Section =
  Section (StartIndex: int) (EndIndex: int) (Name: label) (Children: "Section list") (Id': int)

text \<open>\<^verbatim>\<open>globalId\<close> is threaded through: the id handed out and the counter after it.\<close>

definition nextId :: "int \<Rightarrow> int \<times> int" where
  "nextId globalId = (globalId, globalId + 1)"

text \<open>
  Every parsing function takes the bytes, the index and the id counter, and returns
  \<open>next\<close>, the section (\<open>None\<close> for \<^verbatim>\<open>nil\<close>) and the counter.
\<close>

type_synonym parsed = "panic + (int \<times> Section option \<times> int)"

definition parseMagicNumber :: "byte list \<Rightarrow> int \<Rightarrow> int \<Rightarrow> parsed" where
  "parseMagicNumber bytes index g =
     (if 4 \<le> length bytes then
        bindp (newByteParser bytes index) (\<lambda>parser.
          let (magic, parser) = u4 parser in
          if magic = 0xCAFEBABE then
            (let next = index + 4;
                 (i, g) = nextId g
             in Inr (next, Some (Section index next (Text ''magic number'') [] i), g))
          else Inr (index, None, g))
      else Inr (index, None, g))"

definition parseVersion :: "byte list \<Rightarrow> int \<Rightarrow> int \<Rightarrow> parsed" where
  "parseVersion bytes index g =
     (if 4 \<le> length bytes then
        bindp (newByteParser bytes index) (\<lambda>parser.
          let (minorVersion, parser) = u2 parser;
              (majorVersion, parser) = u2 parser
          in if err parser = None then
            (let next = index + 4;
                 (i, g) = nextId g;
                 minorVersionSection =
                   Section index (index + 2) (Sprintf ''minor version: %d'' [U16 minorVersion]) [] i;
                 (i, g) = nextId g;
                 majorVersionSection =
                   Section (index + 2) (index + 4)
                     (Sprintf ''major version: %d'' [U16 majorVersion]) [] i;
                 (i, g) = nextId g
             in Inr (next,
                  Some (Section index next
                    (Sprintf ''version %d.%d'' [U16 majorVersion, U16 minorVersion])
                    [minorVersionSection, majorVersionSection] i), g))
          else Inr (index, None, g))
      else Inr (index, None, g))"

text \<open>The loop of \<^verbatim>\<open>parseInterfaces\<close>, by the number of iterations left.\<close>

primrec interfacesLoop ::
  "nat \<Rightarrow> byteParser \<Rightarrow> int \<Rightarrow> int \<Rightarrow> Section list \<Rightarrow> Section list \<times> int \<times> int" where
  "interfacesLoop 0 parser next g children = (children, next, g)"
| "interfacesLoop (Suc k) parser next g children =
     (let (i, g) = nextId g;
          (x, parser) = u2 parser;
          children = children @
            [Section next (next + 2) (Sprintf ''constant pool index for interface: '' [U16 x]) [] i]
      in interfacesLoop k parser (next + 2) g children)"

definition parseInterfaces :: "byte list \<Rightarrow> int \<Rightarrow> int \<Rightarrow> parsed" where
  "parseInterfaces bytes index g =
     (let next = index + 2 in
      bindp (newByteParser bytes index) (\<lambda>parser.
        let (c, parser) = u2 parser;
            interfacesCount = uint c;
            (children, next, g) = interfacesLoop (nat interfacesCount) parser next g [];
            (i, g) = nextId g
        in Inr (next,
             Some (Section index next
               (Sprintf ''class implements %v interfaces'' [GoInt interfacesCount]) children i), g)))"

definition parseThisClass :: "byte list \<Rightarrow> int \<Rightarrow> int \<Rightarrow> parsed" where
  "parseThisClass bytes index g =
     (let next = index + 2 in
      bindp (newByteParser bytes index) (\<lambda>parser.
        let (this, parser) = u2 parser;
            (i, g) = nextId g
        in Inr (next,
             Some (Section index next
               (Sprintf ''constant pool index for this class: %v'' [U16 this]) [] i), g)))"

definition parseSuperClass :: "byte list \<Rightarrow> int \<Rightarrow> int \<Rightarrow> parsed" where
  "parseSuperClass bytes index g =
     (let next = index + 2 in
      bindp (newByteParser bytes index) (\<lambda>parser.
        let (super, parser) = u2 parser;
            (i, g) = nextId g
        in Inr (next,
             Some (Section index next
               (Sprintf ''constant pool index for super class: %v'' [U16 super]) [] i), g)))"

text \<open>The access-flag constants.\<close>

definition Public :: "16 word" where "Public = 0x0001"
definition Static :: "16 word" where "Static = 0x0008"
definition Final :: "16 word" where "Final = 0x0010"
definition Super :: "16 word" where "Super = 0x0020"
definition Native :: "16 word" where "Native = 0x0100"
definition Interface :: "16 word" where "Interface = 0x0200"
definition Abstract :: "16 word" where "Abstract = 0x0400"
definition Synthetic :: "16 word" where "Synthetic = 0x1000"
definition Annotation :: "16 word" where "Annotation = 0x2000"
definition Enum :: "16 word" where "Enum = 0x4000"

text \<open>One flag section of \<^verbatim>\<open>parseAccessFlags\<close>: its id, its byte and its label.\<close>

definition flagSec :: "int \<Rightarrow> int \<Rightarrow> string \<Rightarrow> 16 word \<Rightarrow> 16 word \<Rightarrow> Section" where
  "flagSec i start fmt flags flag =
     Section start (start + 1) (Sprintf fmt [GoBool (flags AND flag \<noteq> 0)]) [] i"

definition parseAccessFlags :: "byte list \<Rightarrow> int \<Rightarrow> int \<Rightarrow> parsed" where
  "parseAccessFlags bytes index g =
     (let next = index + 2 in
      bindp (newByteParser bytes index) (\<lambda>parser.
        let (flags, parser) = u2 parser;
            (i, g) = nextId g;
            publicSec = flagSec i (index + 1) ''0x0001 public: %v'' flags Public;
            (i, g) = nextId g;
            staticSec = flagSec i (index + 1) ''0x0008 static: %v'' flags Static;
            (i, g) = nextId g;
            finalSec = flagSec i (index + 1) ''0x0010 final: %v'' flags Final;
            (i, g) = nextId g;
            superSec = flagSec i (index + 1) ''0x0020 super: %v'' flags Super;
            (i, g) = nextId g;
            nativeSec = flagSec i index ''0x0100 native: %v'' flags Native;
            (i, g) = nextId g;
            interfaceSec = flagSec i index ''0x0200 interface: %v'' flags Interface;
            (i, g) = nextId g;
            abstractSec = flagSec i index ''0x0400 abstract: %v'' flags Abstract;
            (i, g) = nextId g;
            syntheticSec = flagSec i index ''0x1000 synthetic: %v'' flags Synthetic;
            (i, g) = nextId g;
            annotationSec = flagSec i index ''0x2000 annotation: %v'' flags Annotation;
            (i, g) = nextId g;
            enumSec = flagSec i index ''0x4000 enum: %v'' flags Enum;
            (i, g) = nextId g
        in Inr (next,
             Some (Section index (index + 2) (Text ''access flags'')
               [publicSec, staticSec, finalSec, superSec, nativeSec, interfaceSec,
                abstractSec, syntheticSec, annotationSec, enumSec] i), g)))"

section \<open>The constant pool of the provenance pass\<close>

text \<open>
  A Go string is a sequence of bytes; \<open>string\<close> is a list of 8-bit characters.
  \<^verbatim>\<open>string(bytes)\<close> keeps the bytes.
\<close>

definition bytesToString :: "byte list \<Rightarrow> string" where
  "bytesToString bs = map (\<lambda>b. char_of (unat b)) bs"

text \<open>The loop that fills \<^verbatim>\<open>strBytes\<close>: \<open>k\<close> calls of \<^verbatim>\<open>parser.u1()\<close>.\<close>

primrec readBytes :: "nat \<Rightarrow> byteParser \<Rightarrow> byte list \<times> byteParser" where
  "readBytes 0 parser = ([], parser)"
| "readBytes (Suc k) parser =
     (let (b, parser) = u1 parser;
          (bs, parser) = readBytes k parser
      in (b # bs, parser))"

text \<open>A section without children, as the cases of the switch build them.\<close>

definition leaf :: "int \<Rightarrow> int \<Rightarrow> int \<Rightarrow> label \<Rightarrow> Section" where
  "leaf i start end name = Section start end name [] i"

text \<open>
  One iteration of the loop of \<^verbatim>\<open>parseConstantPool\<close>, from \<^verbatim>\<open>item.Id = nextId()\<close> to
  the end of the switch: the item (\<open>None\<close> at \<^verbatim>\<open>break loop\<close>), the parser, \<open>next\<close>, the
  id counter and \<open>i\<close> as the iteration leaves them.
\<close>

definition cpItem ::
  "int \<Rightarrow> byteParser \<Rightarrow> int \<Rightarrow> int \<Rightarrow> Section option \<times> byteParser \<times> int \<times> int \<times> int" where
  "cpItem i parser next g =
     (let (itemId, g) = nextId g;
          (tagId, g) = nextId g;
          itemStart = next;
          (tag, parser) = u1 parser;
          tagStart = next;
          next = next + 1;
          tagSec = leaf tagId tagStart next (Sprintf ''tag: %d'' [U8 tag])
      in
      if tag = 1 then
        (let (len, parser) = u2 parser;
             (strBytes, parser) = readBytes (unat len) parser;
             (c1, g) = nextId g;
             lengthSec = leaf c1 next (next + 2) (Sprintf ''length: %d'' [U16 len]);
             next = next + 2;
             (c2, g) = nextId g;
             stringSec = leaf c2 next (next + uint len)
               (Sprintf ''string: \"%s\"'' [GoString (bytesToString strBytes)]);
             next = next + uint len
         in (Some (Section itemStart next (Sprintf ''[%d] UTF-8 string'' [GoInt (i + 1)])
               [tagSec, lengthSec, stringSec] itemId), parser, next, g, i))
      else if tag = 3 then
        (let (x, parser) = u4 parser;
             (c1, g) = nextId g;
             valueSec = leaf c1 next (next + 4) (Sprintf ''%d'' [I32 x]);
             next = next + 4
         in (Some (Section itemStart next (Sprintf ''[%d] int'' [GoInt (i + 1)])
               [tagSec, valueSec] itemId), parser, next, g, i))
      else if tag = 4 then
        (let (bits, parser) = u4 parser;
             (c1, g) = nextId g;
             valueSec = leaf c1 next (next + 4) (Sprintf ''%v'' [F32 bits]);
             next = next + 4
         in (Some (Section itemStart next (Sprintf ''[%d] float'' [GoInt (i + 1)])
               [tagSec, valueSec] itemId), parser, next, g, i))
      else if tag = 5 then
        (let (x, parser) = u8 parser;
             (c1, g) = nextId g;
             valueSec = leaf c1 next (next + 8) (Sprintf ''%v'' [U64 x]);
             next = next + 8
         in (Some (Section itemStart next (Sprintf ''[%d] long'' [GoInt (i + 1)])
               [tagSec, valueSec] itemId), parser, next, g, i + 1))
      else if tag = 6 then
        (let (x, parser) = u8 parser;
             (c1, g) = nextId g;
             valueSec = leaf c1 next (next + 8) (Sprintf ''%v'' [F64 x]);
             next = next + 8
         in (Some (Section itemStart next (Sprintf ''[%d] double'' [GoInt (i + 1)])
               [tagSec, valueSec] itemId), parser, next, g, i + 1))
      else if tag = 7 then
        (let (x, parser) = u2 parser;
             (c1, g) = nextId g;
             valueSec = leaf c1 next (next + 2) (Sprintf ''name index: %v'' [U16 x]);
             next = next + 2
         in (Some (Section itemStart next (Sprintf ''[%d] class info'' [GoInt (i + 1)])
               [tagSec, valueSec] itemId), parser, next, g, i))
      else if tag = 8 then
        (let (utf8Index, parser) = u2 parser;
             (c1, g) = nextId g;
             valueSec = leaf c1 next (next + 2)
               (Sprintf ''UTF-8 constant index: %v'' [U16 utf8Index]);
             next = next + 2
         in (Some (Section itemStart next (Sprintf ''[%d] string constant'' [GoInt (i + 1)])
               [tagSec, valueSec] itemId), parser, next, g, i))
      else if tag = 9 then
        (let (classIndex, parser) = u2 parser;
             (c1, g) = nextId g;
             classSec = leaf c1 next (next + 2)
               (Sprintf ''class info index: %v'' [U16 classIndex]);
             next = next + 2;
             (nameAndTypeIndex, parser) = u2 parser;
             (c2, g) = nextId g;
             ntSec = leaf c2 next (next + 2)
               (Sprintf ''name and type index: %v'' [U16 nameAndTypeIndex]);
             next = next + 2
         in (Some (Section itemStart next (Sprintf ''[%d] field ref'' [GoInt (i + 1)])
               [tagSec, classSec, ntSec] itemId), parser, next, g, i))
      else if tag = 10 then
        (let (classIndex, parser) = u2 parser;
             (c1, g) = nextId g;
             classSec = leaf c1 next (next + 2)
               (Sprintf ''class info index: %v'' [U16 classIndex]);
             next = next + 2;
             (nameAndTypeIndex, parser) = u2 parser;
             (c2, g) = nextId g;
             ntSec = leaf c2 next (next + 2)
               (Sprintf ''name and type index: %v'' [U16 nameAndTypeIndex]);
             next = next + 2
         in (Some (Section itemStart next (Sprintf ''[%d] method ref'' [GoInt (i + 1)])
               [tagSec, classSec, ntSec] itemId), parser, next, g, i))
      else if tag = 11 then
        (let (classIndex, parser) = u2 parser;
             (c1, g) = nextId g;
             classSec = leaf c1 next (next + 2)
               (Sprintf ''class info index: %v'' [U16 classIndex]);
             next = next + 2;
             (nameAndTypeIndex, parser) = u2 parser;
             (c2, g) = nextId g;
             ntSec = leaf c2 next (next + 2)
               (Sprintf ''name and type index: %v'' [U16 nameAndTypeIndex]);
             next = next + 2
         in (Some (Section itemStart next
               (Sprintf ''[%d] interface method ref'' [GoInt (i + 1)])
               [tagSec, classSec, ntSec] itemId), parser, next, g, i))
      else if tag = 12 then
        (let (nameIndex, parser) = u2 parser;
             (c1, g) = nextId g;
             nameSec = leaf c1 next (next + 2) (Sprintf ''name index: %v'' [U16 nameIndex]);
             next = next + 2;
             (descriptorIndex, parser) = u2 parser;
             (c2, g) = nextId g;
             descSec = leaf c2 next (next + 2)
               (Sprintf ''descriptor index: %v'' [U16 descriptorIndex]);
             next = next + 2
         in (Some (Section itemStart next (Sprintf ''[%d] name and type'' [GoInt (i + 1)])
               [tagSec, nameSec, descSec] itemId), parser, next, g, i))
      else if tag = 15 then
        (let (referenceKind, parser) = u1 parser;
             (c1, g) = nextId g;
             kindSec = leaf c1 next (next + 1)
               (Sprintf ''reference kind: %v'' [U8 referenceKind]);
             next = next + 1;
             (referenceIndex, parser) = u2 parser;
             (c2, g) = nextId g;
             refSec = leaf c2 next (next + 2)
               (Sprintf ''reference index: %v'' [U16 referenceIndex]);
             next = next + 2
         in (Some (Section itemStart next (Sprintf ''[%d] method handle'' [GoInt (i + 1)])
               [tagSec, kindSec, refSec] itemId), parser, next, g, i))
      else if tag = 16 then
        (let (descriptorIndex, parser) = u2 parser;
             (c1, g) = nextId g;
             valueSec = leaf c1 next (next + 2)
               (Sprintf ''descriptor index: %v'' [U16 descriptorIndex]);
             next = next + 2
         in (Some (Section itemStart next (Sprintf ''[%d] method type'' [GoInt (i + 1)])
               [tagSec, valueSec] itemId), parser, next, g, i))
      else if tag = 18 then
        (let (bootstrapMethodIndex, parser) = u2 parser;
             (c1, g) = nextId g;
             bootSec = leaf c1 next (next + 2)
               (Sprintf ''bootstrap method attribute index: %v'' [U16 bootstrapMethodIndex]);
             next = next + 2;
             (nameAndTypeIndex, parser) = u2 parser;
             (c2, g) = nextId g;
             ntSec = leaf c2 next (next + 2)
               (Sprintf ''name and type index: %v'' [U16 nameAndTypeIndex]);
             next = next + 2
         in (Some (Section itemStart next (Sprintf ''[%d] invoke dynamic'' [GoInt (i + 1)])
               [tagSec, bootSec, ntSec] itemId), parser, next, g, i))
      else (None, parser, next, g, i))"

text \<open>
  The loop \<^verbatim>\<open>for i := 0; i < int(constantPoolCount-1); i++\<close>, with \<open>n\<close> the bound. A
  long or a double has already added one to \<open>i\<close> in its case.
\<close>

function cpLoop ::
  "int \<Rightarrow> int \<Rightarrow> byteParser \<Rightarrow> int \<Rightarrow> int \<Rightarrow> Section list \<Rightarrow> Section list \<times> int \<times> int" where
  "cpLoop n i parser next g children =
     (if i < n then
        (case cpItem i parser next g of
           (None, parser, next, g, i) \<Rightarrow> (children, next, g)
         | (Some item, parser, next, g, i) \<Rightarrow>
             cpLoop n (i + 1) parser next g (children @ [item]))
      else (children, next, g))"
  by pat_completeness auto
termination
  by (relation "measure (\<lambda>(n, i, parser, next, g, children). nat (n - i))")
     (auto simp: cpItem_def Let_def split: prod.splits if_splits)

definition parseConstantPool :: "byte list \<Rightarrow> int \<Rightarrow> int \<Rightarrow> parsed" where
  "parseConstantPool bytes index g =
     (let next = index in
      bindp (newByteParser bytes index) (\<lambda>parser.
        let (constantPoolCount, parser) = u2 parser;
            next = next + 2;
            (i, g) = nextId g;
            children =
              [leaf i index next (Sprintf ''constant pool count: %d'' [U16 constantPoolCount])];
            (children, next, g) = cpLoop (uint (constantPoolCount - 1)) 0 parser next g children;
            (i, g) = nextId g
        in Inr (next,
             Some (Section index next
               (Sprintf ''constant pool with %d items'' [GoInt (int (length children) - 1)])
               children i), g)))"

section \<open>parseClass\<close>

definition parsingFuncs :: "(byte list \<Rightarrow> int \<Rightarrow> int \<Rightarrow> parsed) list" where
  "parsingFuncs =
     [parseMagicNumber, parseVersion, parseConstantPool, parseAccessFlags,
      parseThisClass, parseSuperClass, parseInterfaces]"

text \<open>The loop over \<^verbatim>\<open>parsingFuncs\<close>: a section is appended unless it is \<^verbatim>\<open>nil\<close>.\<close>

fun runFuncs ::
  "(byte list \<Rightarrow> int \<Rightarrow> int \<Rightarrow> parsed) list \<Rightarrow> byte list \<Rightarrow> int \<Rightarrow> int \<Rightarrow> Section list
     \<Rightarrow> panic + Section list" where
  "runFuncs [] bytes index g sections = Inr sections"
| "runFuncs (f # fs) bytes index g sections =
     bindp (f bytes index g) (\<lambda>(index, section, g).
       runFuncs fs bytes index g
         (case section of None \<Rightarrow> sections | Some s \<Rightarrow> sections @ [s]))"

text \<open>\<^verbatim>\<open>globalId = 0\<close>, \<^verbatim>\<open>index := 0\<close>, then the loop.\<close>

definition parseClass :: "byte list \<Rightarrow> panic + Section list" where
  "parseClass bytes = runFuncs parsingFuncs bytes 0 0 []"

section \<open>The model pass\<close>

text \<open>
  The types that implement \<^verbatim>\<open>ConstantPoolItem\<close>, with their fields in the order of the
  structs, and \<open>NilItem\<close> for the interface's zero value. The \<^verbatim>\<open>containingClass\<close> pointer of
  \<^verbatim>\<open>classInfo\<close>, \<^verbatim>\<open>methodRef\<close>, \<^verbatim>\<open>interfaceMethodRef\<close> and \<^verbatim>\<open>fieldRef\<close> is the class
  that owns the pool: the accessors below take that class as an argument. Floats are kept
  as their bit patterns.
\<close>

datatype ConstantPoolItem =
    NilItem
  | methodType "16 word"
  | methodHandle "8 word" "16 word"
  | invokeDynamic "16 word" "16 word"
  | nameAndType "16 word" "16 word"
  | utf8String string
  | classInfo "16 word"
  | methodRef "16 word" "16 word"
  | interfaceMethodRef "16 word" "16 word"
  | fieldRef "16 word" "16 word"
  | stringConstant "16 word"
  | intConstant "32 word"
  | longConstant "64 word"
  | WideConstantPart2
  | floatConstant "32 word"
  | doubleConstant "64 word"

record ExceptionHandler =
  Start :: "16 word"
  End :: "16 word"
  Handler :: "16 word"
  CatchType :: "16 word"
  Class :: string

record Code =
  maxStack :: "16 word"
  maxLocals :: "16 word"
  Instructions :: "byte list"
  ExceptionHandlers :: "ExceptionHandler list"

text \<open>\<^verbatim>\<open>field.value\<close> is never assigned or read and is left out.\<close>

record field =
  accessFlags :: "16 word"
  nameIndex :: "16 word"
  descriptorIndex :: "16 word"

text \<open>
  \<^verbatim>\<open>Method.class\<close> always points to the class being decoded; the functions that follow it
  take the class. The three fields that \<^verbatim>\<open>Method\<close> shares by name with \<^verbatim>\<open>field\<close> carry the
  suffix \<open>_m\<close>.
\<close>

record Method =
  Signiture :: "string list"
  RawSigniture :: string
  accessFlags_m :: "16 word"
  nameIndex_m :: "16 word"
  descriptorIndex_m :: "16 word"
  Code :: Code

record Class =
  magic :: "32 word"
  MinorVersion :: "16 word"
  MajorVersion :: "16 word"
  ConstantPoolItems :: "ConstantPoolItem list"
  AccessFlags :: "16 word"
  thisClass :: "16 word"
  superClass :: "16 word"
  interfaces :: "16 word list"
  fields_c :: "field list"
  methods :: "Method list"
  initialised :: bool

text \<open>
  The field \<^verbatim>\<open>fields\<close> of \<^verbatim>\<open>Class\<close> is \<open>fields_c\<close> here: the record package keeps the
  name \<open>fields\<close> for itself.
\<close>

text \<open>The zero values of \<^verbatim>\<open>var c Code\<close> and of the named result \<^verbatim>\<open>c Class\<close>.\<close>

definition zeroCode :: Code where
  "zeroCode = \<lparr>maxStack = 0, maxLocals = 0, Instructions = [], ExceptionHandlers = []\<rparr>"

definition zeroClass :: Class where
  "zeroClass =
     \<lparr>magic = 0, MinorVersion = 0, MajorVersion = 0, ConstantPoolItems = [], AccessFlags = 0,
      thisClass = 0, superClass = 0, interfaces = [], fields_c = [], methods = [],
      initialised = False\<rparr>"

text \<open>
  \<^verbatim>\<open>items[idx]\<close> for an index expression of type \<^verbatim>\<open>uint16\<close> (the callers pass
  \<open>index - 1\<close>, which wraps at 0), and the type assertions \<^verbatim>\<open>.(T)\<close> without the comma-ok
  form: both panic.
\<close>

definition cpAt :: "ConstantPoolItem list \<Rightarrow> 16 word \<Rightarrow> panic + ConstantPoolItem" where
  "cpAt items idx =
     (if unat idx < length items then Inr (items ! unat idx) else Inl IndexOutOfRange)"

definition asUtf8String :: "ConstantPoolItem \<Rightarrow> panic + string" where
  "asUtf8String item = (case item of utf8String contents \<Rightarrow> Inr contents | _ \<Rightarrow> Inl InterfaceConversion)"

definition asClassInfo :: "ConstantPoolItem \<Rightarrow> panic + 16 word" where
  "asClassInfo item = (case item of classInfo ni \<Rightarrow> Inr ni | _ \<Rightarrow> Inl InterfaceConversion)"

definition asNameAndType :: "ConstantPoolItem \<Rightarrow> panic + (16 word \<times> 16 word)" where
  "asNameAndType item =
     (case item of nameAndType ni di \<Rightarrow> Inr (ni, di)
      | _ \<Rightarrow> Inl InterfaceConversion)"

definition asMethodRef :: "ConstantPoolItem \<Rightarrow> panic + (16 word \<times> 16 word)" where
  "asMethodRef item =
     (case item of methodRef ci nti \<Rightarrow> Inr (ci, nti) | _ \<Rightarrow> Inl InterfaceConversion)"

definition asInterfaceMethodRef :: "ConstantPoolItem \<Rightarrow> panic + (16 word \<times> 16 word)" where
  "asInterfaceMethodRef item =
     (case item of interfaceMethodRef ci nti \<Rightarrow> Inr (ci, nti) | _ \<Rightarrow> Inl InterfaceConversion)"

definition asFieldRef :: "ConstantPoolItem \<Rightarrow> panic + (16 word \<times> 16 word)" where
  "asFieldRef item =
     (case item of fieldRef ci nti \<Rightarrow> Inr (ci, nti) | _ \<Rightarrow> Inl InterfaceConversion)"

definition asStringConstant :: "ConstantPoolItem \<Rightarrow> panic + 16 word" where
  "asStringConstant item =
     (case item of stringConstant u \<Rightarrow> Inr u | _ \<Rightarrow> Inl InterfaceConversion)"

definition asLongConstant :: "ConstantPoolItem \<Rightarrow> panic + 64 word" where
  "asLongConstant item =
     (case item of longConstant v \<Rightarrow> Inr v | _ \<Rightarrow> Inl InterfaceConversion)"

text \<open>\<^verbatim>\<open>items[index]\<close> for an index of type \<^verbatim>\<open>int\<close>, as \<^verbatim>\<open>getStringAt\<close> and \<^verbatim>\<open>getLongAt\<close> take it.\<close>

definition cpAtInt :: "ConstantPoolItem list \<Rightarrow> int \<Rightarrow> panic + ConstantPoolItem" where
  "cpAtInt items index =
     (if 0 \<le> index \<and> index < int (length items) then Inr (items ! nat index)
      else Inl IndexOutOfRange)"

subsection \<open>parseSigniture\<close>

text \<open>
  The loop \<^verbatim>\<open>for _, c := range sig\<close> over the characters left, with the flag
  \<^verbatim>\<open>className\<close> and the slice \<open>s\<close>. The loop ranges over runes: a byte above 0x7f starts a
  rune that is no case of the switch, and inside a class name every rune but the
  semicolon is skipped, so the walk over bytes gives the same result. \<^verbatim>\<open>log.Panicf\<close>
  panics with the formatted message.
\<close>

fun sigLoop :: "bool \<Rightarrow> string \<Rightarrow> string list \<Rightarrow> string \<Rightarrow> panic + string list" where
  "sigLoop className [] s sig = Inr s"
| "sigLoop className (c # cs) s sig =
     (if className then
        (if c = CHR '';'' then sigLoop False cs s sig else sigLoop className cs s sig)
      else if c = CHR ''('' \<or> c = CHR '')'' \<or> c = CHR ''['' then sigLoop className cs s sig
      else if c = CHR ''B'' then sigLoop className cs (s @ [''byte'']) sig
      else if c = CHR ''C'' then sigLoop className cs (s @ [''char'']) sig
      else if c = CHR ''D'' then sigLoop className cs (s @ [''double'']) sig
      else if c = CHR ''F'' then sigLoop className cs (s @ [''float'']) sig
      else if c = CHR ''I'' then sigLoop className cs (s @ [''int'']) sig
      else if c = CHR ''J'' then sigLoop className cs (s @ [''long'']) sig
      else if c = CHR ''S'' then sigLoop className cs (s @ [''short'']) sig
      else if c = CHR ''Z'' then sigLoop className cs (s @ [''boolean'']) sig
      else if c = CHR ''V'' then sigLoop className cs (s @ [''void'']) sig
      else if c = CHR ''L'' then sigLoop True cs (s @ [''reference'']) sig
      else Inl (LogPanicf (Sprintf (''Can'' @ [CHR 0x27] @ ''t parse signiture: %s'') [GoString sig])))"

definition parseSigniture :: "string \<Rightarrow> panic + string list" where
  "parseSigniture sig = sigLoop False sig [] sig"

subsection \<open>ParseClass\<close>

text \<open>The loop \<^verbatim>\<open>for k := uint32(0); k < length; k++ { _ = cr.u1() }\<close>.\<close>

primrec throwAway :: "nat \<Rightarrow> byteParser \<Rightarrow> byteParser" where
  "throwAway 0 cr = cr"
| "throwAway (Suc k) cr = (let (b, cr) = u1 cr in throwAway k cr)"

text \<open>
  The attribute loop of a field and of the class (the source writes it out at both
  places): a name index, a length, and the bytes thrown away.
\<close>

primrec skipAttributes :: "nat \<Rightarrow> byteParser \<Rightarrow> byteParser" where
  "skipAttributes 0 cr = cr"
| "skipAttributes (Suc j) cr =
     (let (name, cr) = u2 cr;
          (len, cr) = u4 cr;
          cr = throwAway (unat len) cr
      in skipAttributes j cr)"

primrec readInterfaces :: "nat \<Rightarrow> byteParser \<Rightarrow> 16 word list \<times> byteParser" where
  "readInterfaces 0 cr = ([], cr)"
| "readInterfaces (Suc k) cr =
     (let (x, cr) = u2 cr;
          (xs, cr) = readInterfaces k cr
      in (x # xs, cr))"

primrec parseFields :: "nat \<Rightarrow> byteParser \<Rightarrow> field list \<times> byteParser" where
  "parseFields 0 cr = ([], cr)"
| "parseFields (Suc k) cr =
     (let (af, cr) = u2 cr;
          (ni, cr) = u2 cr;
          (di, cr) = u2 cr;
          (attrCount, cr) = u2 cr;
          cr = skipAttributes (unat attrCount) cr;
          (fs, cr) = parseFields k cr
      in (\<lparr>accessFlags = af, nameIndex = ni, descriptorIndex = di\<rparr> # fs, cr))"

text \<open>
  The loop over the exception handlers in \<^verbatim>\<open>parseCode\<close>. A nonzero catch type is looked up
  in the pool of the method's class.
\<close>

primrec parseHandlers ::
  "Class \<Rightarrow> nat \<Rightarrow> byteParser \<Rightarrow> panic + (ExceptionHandler list \<times> byteParser)" where
  "parseHandlers c 0 cr = Inr ([], cr)"
| "parseHandlers c (Suc k) cr =
     (let (st, cr) = u2 cr;
          (en, cr) = u2 cr;
          (h, cr) = u2 cr;
          (catchType, cr) = u2 cr
      in bindp
           (if catchType \<noteq> 0 then
              bindp (cpAt (ConstantPoolItems c) (catchType - 1)) (\<lambda>item.
              bindp (asClassInfo item) (\<lambda>infoNameIndex.
              bindp (cpAt (ConstantPoolItems c) (infoNameIndex - 1)) (\<lambda>item.
              bindp (asUtf8String item) (\<lambda>name.
                Inr \<lparr>Start = st, End = en, Handler = h, CatchType = catchType, Class = name\<rparr>))))
            else Inr \<lparr>Start = st, End = en, Handler = h, CatchType = 0, Class = []\<rparr>)
           (\<lambda>eh. bindp (parseHandlers c k cr) (\<lambda>(hs, cr). Inr (eh # hs, cr))))"

text \<open>
  \<^verbatim>\<open>parseCode(cr, length, method)\<close>: the code it stores in \<^verbatim>\<open>method.Code\<close> and the reader
  as it leaves it. The last loop starts at
  \<^verbatim>\<open>uint32(8) + codeLength + 2 + uint32(numExceptionHandlers)*8\<close>, computed in 32 bits.
\<close>

definition parseCode :: "Class \<Rightarrow> byteParser \<Rightarrow> 32 word \<Rightarrow> panic + (Code \<times> byteParser)" where
  "parseCode c cr len =
     (let (ms, cr) = u2 cr;
          (ml, cr) = u2 cr;
          (codeLength, cr) = u4 cr;
          (instructions, cr) = readBytes (unat codeLength) cr;
          (numExceptionHandlers, cr) = u2 cr
      in bindp (parseHandlers c (unat numExceptionHandlers) cr) (\<lambda>(handlers, cr).
           let k = 8 + codeLength + 2 + ucast numExceptionHandlers * 8;
               cr = throwAway (if k < len then unat len - unat k else 0) cr
           in Inr (\<lparr>maxStack = ms, maxLocals = ml, Instructions = instructions,
                     ExceptionHandlers = handlers\<rparr>, cr)))"

text \<open>The attribute loop of a method: \<open>code\<close> is \<^verbatim>\<open>c.methods[i].Code\<close>.\<close>

primrec methodAttributes ::
  "Class \<Rightarrow> nat \<Rightarrow> byteParser \<Rightarrow> Code \<Rightarrow> panic + (Code \<times> byteParser)" where
  "methodAttributes c 0 cr code = Inr (code, cr)"
| "methodAttributes c (Suc j) cr code =
     (let (name, cr) = u2 cr;
          (len, cr) = u4 cr
      in bindp (cpAt (ConstantPoolItems c) (name - 1)) (\<lambda>item.
         bindp (asUtf8String item) (\<lambda>actualName.
           if actualName = ''Code'' then
             bindp (parseCode c cr len) (\<lambda>(code, cr). methodAttributes c j cr code)
           else methodAttributes c j (throwAway (unat len) cr) code)))"

text \<open>The loop over the methods; \<open>c\<close> is the class as decoded so far.\<close>

primrec parseMethods :: "Class \<Rightarrow> nat \<Rightarrow> byteParser \<Rightarrow> panic + (Method list \<times> byteParser)" where
  "parseMethods c 0 cr = Inr ([], cr)"
| "parseMethods c (Suc k) cr =
     (let (af, cr) = u2 cr;
          (ni, cr) = u2 cr;
          (di, cr) = u2 cr
      in bindp (cpAt (ConstantPoolItems c) (di - 1)) (\<lambda>item.
         bindp (asUtf8String item) (\<lambda>sig.
         bindp (parseSigniture sig) (\<lambda>signiture.
           let (attrCount, cr) = u2 cr
           in bindp (methodAttributes c (unat attrCount) cr zeroCode) (\<lambda>(code, cr).
              bindp (parseMethods c k cr) (\<lambda>(ms, cr).
                Inr (\<lparr>Signiture = signiture, RawSigniture = sig, accessFlags_m = af,
                      nameIndex_m = ni, descriptorIndex_m = di, Code = code\<rparr> # ms, cr)))))))"

text \<open>
  \<^verbatim>\<open>ParseClass\<close>, on the bytes the reader yields. The call that filled the pool is commented
  out in the source: after \<^verbatim>\<open>cpc := cr.u2()\<close> nothing is read or stored for the pool.
  The result is the class and \<^verbatim>\<open>cr.err\<close>.
\<close>

definition ParseClass :: "byte list \<Rightarrow> panic + (Class \<times> error option)" where
  "ParseClass r =
     (let cr = newClassDecoder r;
          c = zeroClass;
          (minor, cr) = u2 cr;
          c = c\<lparr>MinorVersion := minor\<rparr>;
          (major, cr) = u2 cr;
          c = c\<lparr>MajorVersion := major\<rparr>;
          (cpc, cr) = u2 cr;
          (af, cr) = u2 cr;
          c = c\<lparr>AccessFlags := af\<rparr>;
          (this, cr) = u2 cr;
          c = c\<lparr>thisClass := this\<rparr>;
          (super, cr) = u2 cr;
          c = c\<lparr>superClass := super\<rparr>;
          (interfacesCount, cr) = u2 cr;
          (ifs, cr) = readInterfaces (unat interfacesCount) cr;
          c = c\<lparr>interfaces := ifs\<rparr>;
          (fieldsCount, cr) = u2 cr;
          (fs, cr) = parseFields (unat fieldsCount) cr;
          c = c\<lparr>fields_c := fs\<rparr>;
          (methodsCount, cr) = u2 cr
      in bindp (parseMethods c (unat methodsCount) cr) (\<lambda>(ms, cr).
           let c = c\<lparr>methods := ms\<rparr>;
               (attrCount, cr) = u2 cr;
               cr = skipAttributes (unat attrCount) cr
           in Inr (c, err cr)))"

subsection \<open>The accessors\<close>

text \<open>The loop of \<^verbatim>\<open>hasMethodCalled\<close> over the methods left.\<close>

fun hasMethodLoop :: "Class \<Rightarrow> Method list \<Rightarrow> string \<Rightarrow> panic + bool" where
  "hasMethodLoop c [] name = Inr False"
| "hasMethodLoop c (m # ms) name =
     bindp (cpAt (ConstantPoolItems c) (nameIndex_m m - 1)) (\<lambda>item.
     bindp (asUtf8String item) (\<lambda>n.
       if n = name then Inr True else hasMethodLoop c ms name))"

definition hasMethodCalled :: "Class \<Rightarrow> string \<Rightarrow> panic + bool" where
  "hasMethodCalled c name = hasMethodLoop c (methods c) name"

text \<open>\<^verbatim>\<open>Class.Name\<close> and \<^verbatim>\<open>Class.getSuperName\<close>.\<close>

definition Class_Name :: "Class \<Rightarrow> panic + string" where
  "Class_Name c =
     bindp (cpAt (ConstantPoolItems c) (thisClass c - 1)) (\<lambda>item.
     bindp (asClassInfo item) (\<lambda>infoNameIndex.
     bindp (cpAt (ConstantPoolItems c) (infoNameIndex - 1)) (\<lambda>item.
     bindp (asUtf8String item) (\<lambda>name. Inr name))))"

definition getSuperName :: "Class \<Rightarrow> panic + string" where
  "getSuperName c =
     bindp (cpAt (ConstantPoolItems c) (superClass c - 1)) (\<lambda>item.
     bindp (asClassInfo item) (\<lambda>infoNameIndex.
     bindp (cpAt (ConstantPoolItems c) (infoNameIndex - 1)) (\<lambda>item.
     bindp (asUtf8String item) (\<lambda>name. Inr name))))"

text \<open>
  The loop of \<^verbatim>\<open>resolveMethod\<close>: the method found (\<open>None\<close> for \<^verbatim>\<open>nil\<close>) and
  \<^verbatim>\<open>avaiableMethods\<close>. \<^verbatim>\<open>fmt.Sprintf("%s::%s%s", c.Name(), n, d)\<close> joins the three strings.
\<close>

fun resolveLoop ::
  "Class \<Rightarrow> Method list \<Rightarrow> string \<Rightarrow> string \<Rightarrow> string list \<Rightarrow> panic + (Method option \<times> string list)" where
  "resolveLoop c [] name descriptor avaiableMethods = Inr (None, avaiableMethods)"
| "resolveLoop c (m # ms) name descriptor avaiableMethods =
     bindp (cpAt (ConstantPoolItems c) (nameIndex_m m - 1)) (\<lambda>item.
     bindp (asUtf8String item) (\<lambda>n.
     bindp (cpAt (ConstantPoolItems c) (descriptorIndex_m m - 1)) (\<lambda>item.
     bindp (asUtf8String item) (\<lambda>d.
     bindp (Class_Name c) (\<lambda>cn.
       let avaiableMethods = avaiableMethods @ [cn @ ''::'' @ n @ d]
       in if n = name \<and> d = descriptor then Inr (Some m, avaiableMethods)
          else resolveLoop c ms name descriptor avaiableMethods)))))"

definition resolveMethod :: "Class \<Rightarrow> string \<Rightarrow> string \<Rightarrow> panic + (Method option \<times> string list)" where
  "resolveMethod c name descriptor = resolveLoop c (methods c) name descriptor []"

fun getFieldLoop :: "Class \<Rightarrow> field list \<Rightarrow> string \<Rightarrow> panic + field" where
  "getFieldLoop c [] name =
     Inl (ExplicitPanic (Sprintf ''Could not find field called %v'' [GoString name]))"
| "getFieldLoop c (f # fs) name =
     bindp (cpAt (ConstantPoolItems c) (nameIndex f - 1)) (\<lambda>item.
     bindp (asUtf8String item) (\<lambda>n.
       if n = name then Inr f else getFieldLoop c fs name))"

definition getField :: "Class \<Rightarrow> string \<Rightarrow> panic + field" where
  "getField c name = getFieldLoop c (fields_c c) name"

definition getConstantPoolItemAt :: "Class \<Rightarrow> 16 word \<Rightarrow> panic + ConstantPoolItem" where
  "getConstantPoolItemAt c index = cpAt (ConstantPoolItems c) (index - 1)"

text \<open>
  The methods of \<^verbatim>\<open>methodRef\<close>, on the class \<^verbatim>\<open>m.containingClass\<close> points to and the
  fields \<^verbatim>\<open>m.classIndex\<close> and \<^verbatim>\<open>m.nameAndTypeIndex\<close>.
\<close>

definition methodRef_methodName :: "Class \<Rightarrow> 16 word \<Rightarrow> 16 word \<Rightarrow> panic + string" where
  "methodRef_methodName containingClass classIndex nameAndTypeIndex =
     bindp (cpAt (ConstantPoolItems containingClass) (nameAndTypeIndex - 1)) (\<lambda>item.
     bindp (asNameAndType item) (\<lambda>(ntNameIndex, ntDescriptorIndex).
     bindp (cpAt (ConstantPoolItems containingClass) (ntNameIndex - 1)) (\<lambda>item.
     bindp (asUtf8String item) (\<lambda>n. Inr n))))"

definition methodRef_className :: "Class \<Rightarrow> 16 word \<Rightarrow> 16 word \<Rightarrow> panic + string" where
  "methodRef_className containingClass classIndex nameAndTypeIndex =
     bindp (cpAt (ConstantPoolItems containingClass) (classIndex - 1)) (\<lambda>item.
     bindp (asClassInfo item) (\<lambda>ctNameIndex.
     bindp (cpAt (ConstantPoolItems containingClass) (ctNameIndex - 1)) (\<lambda>item.
     bindp (asUtf8String item) (\<lambda>c. Inr c))))"

definition methodRef_methodType :: "Class \<Rightarrow> 16 word \<Rightarrow> 16 word \<Rightarrow> panic + string" where
  "methodRef_methodType containingClass classIndex nameAndTypeIndex =
     bindp (cpAt (ConstantPoolItems containingClass) (nameAndTypeIndex - 1)) (\<lambda>item.
     bindp (asNameAndType item) (\<lambda>(ntNameIndex, ntDescriptorIndex).
     bindp (cpAt (ConstantPoolItems containingClass) (ntDescriptorIndex - 1)) (\<lambda>item.
     bindp (asUtf8String item) (\<lambda>t. Inr t))))"

text \<open>
  The methods of \<^verbatim>\<open>interfaceMethodRef\<close> and \<^verbatim>\<open>fieldRef\<close>, which the source writes out
  again, and \<^verbatim>\<open>classInfo.className\<close> on the field \<^verbatim>\<open>ct.nameIndex\<close>.
\<close>

definition interfaceMethodRef_methodName :: "Class \<Rightarrow> 16 word \<Rightarrow> 16 word \<Rightarrow> panic + string" where
  "interfaceMethodRef_methodName containingClass classIndex nameAndTypeIndex =
     bindp (cpAt (ConstantPoolItems containingClass) (nameAndTypeIndex - 1)) (\<lambda>item.
     bindp (asNameAndType item) (\<lambda>(ntNameIndex, ntDescriptorIndex).
     bindp (cpAt (ConstantPoolItems containingClass) (ntNameIndex - 1)) (\<lambda>item.
     bindp (asUtf8String item) (\<lambda>n. Inr n))))"

definition interfaceMethodRef_methodType :: "Class \<Rightarrow> 16 word \<Rightarrow> 16 word \<Rightarrow> panic + string" where
  "interfaceMethodRef_methodType containingClass classIndex nameAndTypeIndex =
     bindp (cpAt (ConstantPoolItems containingClass) (nameAndTypeIndex - 1)) (\<lambda>item.
     bindp (asNameAndType item) (\<lambda>(ntNameIndex, ntDescriptorIndex).
     bindp (cpAt (ConstantPoolItems containingClass) (ntDescriptorIndex - 1)) (\<lambda>item.
     bindp (asUtf8String item) (\<lambda>t. Inr t))))"

definition interfaceMethodRef_className :: "Class \<Rightarrow> 16 word \<Rightarrow> 16 word \<Rightarrow> panic + string" where
  "interfaceMethodRef_className containingClass classIndex nameAndTypeIndex =
     bindp (cpAt (ConstantPoolItems containingClass) (classIndex - 1)) (\<lambda>item.
     bindp (asClassInfo item) (\<lambda>ctNameIndex.
     bindp (cpAt (ConstantPoolItems containingClass) (ctNameIndex - 1)) (\<lambda>item.
     bindp (asUtf8String item) (\<lambda>c. Inr c))))"

definition classInfo_className :: "Class \<Rightarrow> 16 word \<Rightarrow> panic + string" where
  "classInfo_className containingClass ctNameIndex =
     bindp (cpAt (ConstantPoolItems containingClass) (ctNameIndex - 1)) (\<lambda>item.
     bindp (asUtf8String item) (\<lambda>c. Inr c))"

definition fieldRef_fieldName :: "Class \<Rightarrow> 16 word \<Rightarrow> 16 word \<Rightarrow> panic + string" where
  "fieldRef_fieldName containingClass classIndex nameAndTypeIndex =
     bindp (cpAt (ConstantPoolItems containingClass) (nameAndTypeIndex - 1)) (\<lambda>item.
     bindp (asNameAndType item) (\<lambda>(ntNameIndex, ntDescriptorIndex).
     bindp (cpAt (ConstantPoolItems containingClass) (ntNameIndex - 1)) (\<lambda>item.
     bindp (asUtf8String item) (\<lambda>n. Inr n))))"

definition fieldRef_fieldDescriptor :: "Class \<Rightarrow> 16 word \<Rightarrow> 16 word \<Rightarrow> panic + string" where
  "fieldRef_fieldDescriptor containingClass classIndex nameAndTypeIndex =
     bindp (cpAt (ConstantPoolItems containingClass) (nameAndTypeIndex - 1)) (\<lambda>item.
     bindp (asNameAndType item) (\<lambda>(ntNameIndex, ntDescriptorIndex).
     bindp (cpAt (ConstantPoolItems containingClass) (ntDescriptorIndex - 1)) (\<lambda>item.
     bindp (asUtf8String item) (\<lambda>t. Inr t))))"

definition fieldRef_className :: "Class \<Rightarrow> 16 word \<Rightarrow> 16 word \<Rightarrow> panic + string" where
  "fieldRef_className containingClass classIndex nameAndTypeIndex =
     bindp (cpAt (ConstantPoolItems containingClass) (classIndex - 1)) (\<lambda>item.
     bindp (asClassInfo item) (\<lambda>ctNameIndex.
     bindp (cpAt (ConstantPoolItems containingClass) (ctNameIndex - 1)) (\<lambda>item.
     bindp (asUtf8String item) (\<lambda>c. Inr c))))"

text \<open>
  The getters of \<^verbatim>\<open>Class\<close> that assert the kind of one entry. A reference struct is
  returned as its \<^verbatim>\<open>classIndex\<close> and \<^verbatim>\<open>nameAndTypeIndex\<close>, a \<^verbatim>\<open>classInfo\<close> as its
  \<^verbatim>\<open>nameIndex\<close>, a \<^verbatim>\<open>utf8String\<close> as its contents, a \<^verbatim>\<open>longConstant\<close> as its value.
  \<^verbatim>\<open>getStringAt\<close> and \<^verbatim>\<open>getLongAt\<close> take an \<^verbatim>\<open>int\<close> and do not subtract one.
\<close>

definition getMethodRefAt :: "Class \<Rightarrow> 16 word \<Rightarrow> panic + (16 word \<times> 16 word)" where
  "getMethodRefAt c index =
     bindp (cpAt (ConstantPoolItems c) (index - 1)) (\<lambda>item. asMethodRef item)"

definition getInterfaceMethodRefAt :: "Class \<Rightarrow> 16 word \<Rightarrow> panic + (16 word \<times> 16 word)" where
  "getInterfaceMethodRefAt c index =
     bindp (cpAt (ConstantPoolItems c) (index - 1)) (\<lambda>item. asInterfaceMethodRef item)"

definition getFieldRefAt :: "Class \<Rightarrow> 16 word \<Rightarrow> panic + (16 word \<times> 16 word)" where
  "getFieldRefAt c index =
     bindp (cpAt (ConstantPoolItems c) (index - 1)) (\<lambda>item. asFieldRef item)"

definition getClassInfoAt :: "Class \<Rightarrow> 16 word \<Rightarrow> panic + 16 word" where
  "getClassInfoAt c index =
     bindp (cpAt (ConstantPoolItems c) (index - 1)) (\<lambda>item. asClassInfo item)"

definition getStringAt :: "Class \<Rightarrow> int \<Rightarrow> panic + string" where
  "getStringAt c index =
     bindp (cpAtInt (ConstantPoolItems c) index) (\<lambda>item.
     bindp (asStringConstant item) (\<lambda>utf8Index.
     bindp (cpAt (ConstantPoolItems c) (utf8Index - 1)) (\<lambda>item.
     bindp (asUtf8String item) (\<lambda>contents. Inr contents))))"

definition getLongAt :: "Class \<Rightarrow> int \<Rightarrow> panic + 64 word" where
  "getLongAt c index =
     bindp (cpAtInt (ConstantPoolItems c) index) (\<lambda>item. asLongConstant item)"

text \<open>\<^verbatim>\<open>Method.Name\<close>, on the class \<^verbatim>\<open>m.class\<close> points to.\<close>

definition Method_Name :: "Class \<Rightarrow> Method \<Rightarrow> panic + string" where
  "Method_Name c m =
     bindp (cpAt (ConstantPoolItems c) (nameIndex_m m - 1)) (\<lambda>item.
     bindp (asUtf8String item) (\<lambda>contents. Inr contents))"

section \<open>classJSON: the hex tokens beside the sections\<close>

text \<open>
  \<^verbatim>\<open>hex.EncodeToString\<close> of Go's \<^verbatim>\<open>encoding/hex\<close>: for every byte \<open>v\<close> the characters
  \<^verbatim>\<open>hextable[v>>4]\<close> and \<^verbatim>\<open>hextable[v&0x0f]\<close>.
\<close>

definition hextable :: string where
  "hextable = ''0123456789abcdef''"

definition EncodeToString :: "byte list \<Rightarrow> string" where
  "EncodeToString src =
     concat (map (\<lambda>v. [hextable ! unat (drop_bit 4 v), hextable ! unat (v AND 0x0f)]) src)"

text \<open>
  The loop \<^verbatim>\<open>for i := 0; i < len; i += 2\<close> of \<^verbatim>\<open>classJSON\<close>, which appends
  \<^verbatim>\<open>hexString[i:i+2]\<close>; the slice expression panics when \<open>i + 2\<close> is beyond the string.
\<close>

function classStringLoop :: "string \<Rightarrow> nat \<Rightarrow> string list \<Rightarrow> panic + string list" where
  "classStringLoop hexString i classString =
     (if i < length hexString then
        (if i + 2 \<le> length hexString
         then classStringLoop hexString (i + 2) (classString @ [take 2 (drop i hexString)])
         else Inl SliceBoundsOutOfRange)
      else Inr classString)"
  by pat_completeness auto
termination
  by (relation "measure (\<lambda>(hexString, i, classString). length hexString - i)") auto

declare classStringLoop.simps [simp del]

text \<open>\<^verbatim>\<open>classJSON\<close>: the values stored under \<^verbatim>\<open>"raw"\<close> and \<^verbatim>\<open>"parsed"\<close>.\<close>

definition classJSON :: "byte list \<Rightarrow> panic + (string list \<times> Section list)" where
  "classJSON classFile =
     (let hexString = EncodeToString classFile in
      bindp (classStringLoop hexString 0 []) (\<lambda>classString.
      bindp (parseClass classFile) (\<lambda>parsed. Inr (classString, parsed))))"

text \<open>
  Decoding as hex, as C6 words it: two hex digits of either case for each byte, and no
  result for a string of odd length or with another character. This is what
  \<^verbatim>\<open>hex.DecodeString\<close> accepts.
\<close>

definition fromHexChar :: "char \<Rightarrow> byte option" where
  "fromHexChar c =
     (let n = of_char c :: nat in
      if 48 \<le> n \<and> n \<le> 57 then Some (of_nat (n - 48))
      else if 97 \<le> n \<and> n \<le> 102 then Some (of_nat (n - 97 + 10))
      else if 65 \<le> n \<and> n \<le> 70 then Some (of_nat (n - 65 + 10))
      else None)"

fun DecodeString :: "string \<Rightarrow> byte list option" where
  "DecodeString [] = Some []"
| "DecodeString [p] = None"
| "DecodeString (p # q # s) =
     (case (fromHexChar p, fromHexChar q) of
        (Some a, Some b) \<Rightarrow> map_option ((#) (push_bit 4 a OR b)) (DecodeString s)
      | _ \<Rightarrow> None)"

section \<open>What the claims say, as predicates\<close>

text \<open>
  A class file of 34 bytes: the magic number, version 0.52, a constant pool of count 4
  with a long (two slots) and the UTF-8 string "Hi", the access flags 0x0021, this class,
  super class, and one interface.
\<close>

definition sampleClass :: "byte list" where
  "sampleClass =
     [0xCA, 0xFE, 0xBA, 0xBE, 0, 0, 0, 0x34, 0, 4,
      5, 0, 0, 0, 0, 0, 0, 0, 1,
      1, 0, 2, 0x48, 0x69,
      0, 0x21, 0, 0, 0, 0, 0, 1, 0, 3]"

subsection \<open>Byte ranges\<close>

definition ranges :: "Section list \<Rightarrow> (int \<times> int) list" where
  "ranges secs = map (\<lambda>s. (StartIndex s, EndIndex s)) secs"

text \<open>Two half-open ranges overlap when they share a byte.\<close>

definition overlap :: "Section \<Rightarrow> Section \<Rightarrow> bool" where
  "overlap a b = (max (StartIndex a) (StartIndex b) < min (EndIndex a) (EndIndex b))"

definition siblings_ordered :: "Section list \<Rightarrow> bool" where
  "siblings_ordered cs =
     sorted_wrt (\<lambda>a b. StartIndex a \<le> StartIndex b \<and> \<not> overlap a b) cs"

text \<open>
  The layout as C4 states it: children inside the parent, siblings ordered by start offset
  and not overlapping, at every depth.
\<close>

fun layout_claimed :: "Section \<Rightarrow> bool" where
  "layout_claimed (Section s e nm cs i) =
     ((\<forall>c \<in> set cs. s \<le> StartIndex c \<and> EndIndex c \<le> e \<and> layout_claimed c)
      \<and> siblings_ordered cs)"

text \<open>
  The layout the code produces: as above, and \<open>start \<le> end\<close>, but the children of the
  access-flags section lie on its two bytes, the four flags of the low byte first.
\<close>

fun layout :: "Section \<Rightarrow> bool" where
  "layout (Section s e nm cs i) =
     (s \<le> e
      \<and> (\<forall>c \<in> set cs. s \<le> StartIndex c \<and> EndIndex c \<le> e \<and> layout c)
      \<and> (if nm = Text ''access flags''
         then ranges cs = replicate 4 (s + 1, s + 2) @ replicate 6 (s, s + 1)
         else siblings_ordered cs))"

text \<open>
  For the proofs: the sections \<open>cs\<close> follow each other between \<open>lo\<close> and \<open>hi\<close>, and a
  parsing function whose section, if any, runs from \<open>index\<close> to \<open>next\<close> and is laid out.
\<close>

definition fits :: "int \<Rightarrow> Section list \<Rightarrow> int \<Rightarrow> bool" where
  "fits lo cs hi =
     (lo \<le> hi \<and> sorted_wrt (\<lambda>a b. EndIndex a \<le> StartIndex b) cs
      \<and> (\<forall>c \<in> set cs. lo \<le> StartIndex c \<and> StartIndex c \<le> EndIndex c \<and> EndIndex c \<le> hi))"

definition lays_out :: "(byte list \<Rightarrow> int \<Rightarrow> int \<Rightarrow> parsed) \<Rightarrow> bool" where
  "lays_out f =
     (\<forall>bytes index g next sec g'. f bytes index g = Inr (next, sec, g') \<longrightarrow>
        index \<le> next \<and>
        (\<forall>s. sec = Some s \<longrightarrow> StartIndex s = index \<and> EndIndex s = next \<and> layout s))"

subsection \<open>Ids\<close>

text \<open>
  The ids of a section and its descendants, parents first (depth-first visitation), and
  the ids of a root in the order the code builds it: its children, each parent first, then
  the root.
\<close>

fun preorder :: "Section \<Rightarrow> int list" where
  "preorder (Section s e nm cs i) = i # concat (map preorder cs)"

definition built_order :: "Section \<Rightarrow> int list" where
  "built_order s = concat (map preorder (Children s)) @ [Id' s]"

text \<open>
  The ids as C5 states them, strictly increasing from 0 in depth-first order, and as the
  code numbers them, strictly increasing from 0 in the order of building.
\<close>

definition ids_claimed :: "Section list \<Rightarrow> bool" where
  "ids_claimed secs =
     (let ids = concat (map preorder secs) in sorted_wrt (<) ids \<and> (ids = [] \<or> hd ids = 0))"

definition ids_built :: "Section list \<Rightarrow> bool" where
  "ids_built secs =
     (let ids = concat (map built_order secs) in sorted_wrt (<) ids \<and> (ids = [] \<or> hd ids = 0))"

text \<open>
  For the proofs: strictly increasing ids between \<open>lo\<close> and \<open>hi\<close> that start at \<open>lo\<close>, and a
  parsing function that numbers its section so from the counter it is given.
\<close>

definition ids_from :: "int \<Rightarrow> int list \<Rightarrow> int \<Rightarrow> bool" where
  "ids_from lo xs hi =
     (sorted_wrt (<) xs \<and> (\<forall>x \<in> set xs. lo \<le> x \<and> x < hi) \<and> lo \<le> hi
      \<and> (xs \<noteq> [] \<longrightarrow> hd xs = lo))"

definition numbers :: "(byte list \<Rightarrow> int \<Rightarrow> int \<Rightarrow> parsed) \<Rightarrow> bool" where
  "numbers f =
     (\<forall>bytes index g next sec g'. f bytes index g = Inr (next, sec, g') \<longrightarrow>
        (case sec of None \<Rightarrow> g' = g | Some s \<Rightarrow> ids_from g (built_order s) g'))"

subsection \<open>Cross-references and descriptors\<close>

text \<open>
  The reference \<open>index\<close> (1-based, as the accessors take it) lands on \<open>item\<close> in the pool
  of \<open>c\<close>.
\<close>

definition lands :: "Class \<Rightarrow> 16 word \<Rightarrow> ConstantPoolItem \<Rightarrow> bool" where
  "lands c index item =
     (unat (index - 1) < length (ConstantPoolItems c)
      \<and> ConstantPoolItems c ! unat (index - 1) = item)"

definition isClassInfo :: "ConstantPoolItem \<Rightarrow> bool" where
  "isClassInfo item = (case item of classInfo n \<Rightarrow> True | _ \<Rightarrow> False)"

definition isUtf8String :: "ConstantPoolItem \<Rightarrow> bool" where
  "isUtf8String item = (case item of utf8String s \<Rightarrow> True | _ \<Rightarrow> False)"

definition isNameAndType :: "ConstantPoolItem \<Rightarrow> bool" where
  "isNameAndType item = (case item of nameAndType n d \<Rightarrow> True | _ \<Rightarrow> False)"

definition isMethodRef :: "ConstantPoolItem \<Rightarrow> bool" where
  "isMethodRef item = (case item of methodRef a b \<Rightarrow> True | _ \<Rightarrow> False)"

definition isInterfaceMethodRef :: "ConstantPoolItem \<Rightarrow> bool" where
  "isInterfaceMethodRef item = (case item of interfaceMethodRef a b \<Rightarrow> True | _ \<Rightarrow> False)"

definition isFieldRef :: "ConstantPoolItem \<Rightarrow> bool" where
  "isFieldRef item = (case item of fieldRef a b \<Rightarrow> True | _ \<Rightarrow> False)"

definition isStringConstant :: "ConstantPoolItem \<Rightarrow> bool" where
  "isStringConstant item = (case item of stringConstant u \<Rightarrow> True | _ \<Rightarrow> False)"

definition isLongConstant :: "ConstantPoolItem \<Rightarrow> bool" where
  "isLongConstant item = (case item of longConstant v \<Rightarrow> True | _ \<Rightarrow> False)"

text \<open>
  The position \<open>index\<close> (0-based, as \<^verbatim>\<open>getStringAt\<close> and \<^verbatim>\<open>getLongAt\<close> take it) holds
  \<open>item\<close> in the pool of \<open>c\<close>.
\<close>

definition sits :: "Class \<Rightarrow> int \<Rightarrow> ConstantPoolItem \<Rightarrow> bool" where
  "sits c index item =
     (0 \<le> index \<and> index < int (length (ConstantPoolItems c))
      \<and> ConstantPoolItems c ! nat index = item)"

text \<open>The text of the UTF-8 entry the reference \<open>index\<close> lands on, if it lands on one.\<close>

definition textAt :: "Class \<Rightarrow> 16 word \<Rightarrow> string option" where
  "textAt c index =
     (if unat (index - 1) < length (ConstantPoolItems c)
      then (case ConstantPoolItems c ! unat (index - 1) of utf8String s \<Rightarrow> Some s | _ \<Rightarrow> None)
      else None)"

text \<open>
  A loop over the methods or the fields goes past an element when its hops land on UTF-8
  entries and the texts are not the ones looked for: \<open>passes\<close> for the loops of
  \<^verbatim>\<open>hasMethodCalled\<close> and \<^verbatim>\<open>getField\<close>, \<open>passesBoth\<close> for the loop of \<^verbatim>\<open>resolveMethod\<close>.
\<close>

definition passes :: "Class \<Rightarrow> string \<Rightarrow> 16 word \<Rightarrow> bool" where
  "passes c name index = (case textAt c index of None \<Rightarrow> False | Some s \<Rightarrow> s \<noteq> name)"

definition passesBoth :: "Class \<Rightarrow> string \<Rightarrow> string \<Rightarrow> Method \<Rightarrow> bool" where
  "passesBoth c name descriptor m =
     (case textAt c (nameIndex_m m) of
        None \<Rightarrow> False
      | Some n \<Rightarrow>
          (case textAt c (descriptorIndex_m m) of
             None \<Rightarrow> False
           | Some d \<Rightarrow> n \<noteq> name \<or> d \<noteq> descriptor))"

text \<open>
  A pool built by hand with entries of every kind the accessors assert: index 1 a UTF-8
  string; 2 a class info that names it and 3 one that names index 2; 4 a name-and-type
  whose two indices name the string and 5 one whose indices name index 2; 6, 7 and 8 a
  method, an interface-method and a field reference; 9 a string constant that names the
  string and 10 one that names index 2; 11 a long.
\<close>

definition samplePool :: "ConstantPoolItem list" where
  "samplePool =
     [utf8String ''Foo'', classInfo 1, classInfo 2, nameAndType 1 1, nameAndType 2 2,
      methodRef 2 4, interfaceMethodRef 2 4, fieldRef 2 4, stringConstant 1,
      stringConstant 2, longConstant 7]"

text \<open>
  Methods and fields whose name (and descriptor) land on the string, and ones whose name,
  or whose descriptor, lands on the class info at index 2.
\<close>

definition goodMethod :: Method where
  "goodMethod =
     \<lparr>Signiture = [], RawSigniture = [], accessFlags_m = 0, nameIndex_m = 1,
      descriptorIndex_m = 1, Code = zeroCode\<rparr>"

definition badNameMethod :: Method where
  "badNameMethod = goodMethod\<lparr>nameIndex_m := 2\<rparr>"

definition badDescriptorMethod :: Method where
  "badDescriptorMethod = goodMethod\<lparr>descriptorIndex_m := 2\<rparr>"

definition goodField :: field where
  "goodField = \<lparr>accessFlags = 0, nameIndex = 1, descriptorIndex = 1\<rparr>"

definition badNameField :: field where
  "badNameField = \<lparr>accessFlags = 0, nameIndex = 2, descriptorIndex = 1\<rparr>"

text \<open>
  Three classes over this pool. In \<open>firstHopWrong\<close> this class and super class name the
  string, and the first method and field have a bad name; in \<open>secondHopWrong\<close> they name
  the class info at index 3, whose name index lands on a class info; in \<open>allHopsRight\<close>
  they name the class info at index 2, and a good method and field come before the bad
  ones.
\<close>

definition firstHopWrong :: Class where
  "firstHopWrong =
     zeroClass\<lparr>ConstantPoolItems := samplePool, thisClass := 1, superClass := 1,
       fields_c := [badNameField], methods := [badNameMethod]\<rparr>"

definition secondHopWrong :: Class where
  "secondHopWrong =
     zeroClass\<lparr>ConstantPoolItems := samplePool, thisClass := 3, superClass := 3,
       methods := [badDescriptorMethod]\<rparr>"

definition allHopsRight :: Class where
  "allHopsRight =
     zeroClass\<lparr>ConstantPoolItems := samplePool, thisClass := 2, superClass := 2,
       fields_c := [goodField, badNameField], methods := [goodMethod, badNameMethod]\<rparr>"

text \<open>A pool with a long at index 1 and the placeholder of its second slot at index 2.\<close>

definition widePoolClass :: Class where
  "widePoolClass =
     zeroClass\<lparr>ConstantPoolItems := [longConstant 1, WideConstantPart2, utf8String ''Hi'']\<rparr>"

text \<open>
  The number in the label of an entry of the constant pool, and whether its tag is that
  of a long (5) or a double (6).
\<close>

definition entryNumber :: "Section \<Rightarrow> int option" where
  "entryNumber s = (case Name s of Sprintf f [GoInt k] \<Rightarrow> Some k | _ \<Rightarrow> None)"

definition wideEntry :: "Section \<Rightarrow> bool" where
  "wideEntry s =
     (case Children s of
        [] \<Rightarrow> False
      | t # ts \<Rightarrow> Name t = Sprintf ''tag: %d'' [U8 5] \<or> Name t = Sprintf ''tag: %d'' [U8 6])"

text \<open>
  The entries are numbered from \<open>k\<close>, and the entry after a long or a double is numbered
  two higher, not one: the slot between them has no section.
\<close>

fun slots :: "int \<Rightarrow> Section list \<Rightarrow> bool" where
  "slots k [] = True"
| "slots k (s # ss) =
     (entryNumber s = Some k \<and> slots (if wideEntry s then k + 2 else k + 1) ss)"

text \<open>
  A descriptor has a character that \<^verbatim>\<open>parseSigniture\<close> does not know, outside a class
  name (the characters from an \<open>L\<close> to the next semicolon); the flag says whether the
  walk is inside a class name.
\<close>

fun unrecognized :: "bool \<Rightarrow> string \<Rightarrow> bool" where
  "unrecognized className [] = False"
| "unrecognized True (c # cs) = unrecognized (c \<noteq> CHR '';'') cs"
| "unrecognized False (c # cs) =
     (if c \<in> set ''()[BCDFIJSZV'' then unrecognized False cs
      else if c = CHR ''L'' then unrecognized True cs
      else True)"

definition cantParse :: "string \<Rightarrow> panic" where
  "cantParse sig =
     LogPanicf (Sprintf (''Can'' @ [CHR 0x27] @ ''t parse signiture: %s'') [GoString sig])"

text \<open>
  A class whose pool holds a descriptor with the unknown character \<open>X\<close> and a good one,
  and the bytes of two methods that use them in this order, without attributes.
\<close>

definition badSigClass :: Class where
  "badSigClass = zeroClass\<lparr>ConstantPoolItems := [utf8String ''(X)V'', utf8String ''()V'']\<rparr>"

definition twoMethods :: byteParser where
  "twoMethods = \<lparr>reader = [0, 1, 0, 2, 0, 1, 0, 0, 0, 1, 0, 2, 0, 2, 0, 0], err = None\<rparr>"

text \<open>
  A class file without pool entries and without methods: version 0.52, pool count 1,
  flags 0x0021, this class 1, no interfaces, one field without attributes.
\<close>

definition fieldOnlyClass :: "byte list" where
  "fieldOnlyClass =
     [0xCA, 0xFE, 0xBA, 0xBE, 0, 0, 0, 0x34, 0, 1, 0, 0x21, 0, 1, 0, 0, 0, 0,
      0, 1, 0, 0, 0, 0, 0, 0, 0, 0, 0, 0, 0, 0]"

subsection \<open>Panics of the provenance pass\<close>

text \<open>For the proofs: a parsing function whose only panic is the slice panic.\<close>

definition only_slices :: "(byte list \<Rightarrow> int \<Rightarrow> int \<Rightarrow> parsed) \<Rightarrow> bool" where
  "only_slices f = (\<forall>bytes index g p. f bytes index g = Inl p \<longrightarrow> p = SliceBoundsOutOfRange)"

section \<open>A failed read, a wrong magic number, a short buffer (C3, C1, C10)\<close>

text \<open>
  C3. A read that finds too few bytes is meant to put the cursor in a failed state that the
  caller can see. The read returns zero and consumes what is left, but the caller's
  \<^verbatim>\<open>err\<close> stays \<^verbatim>\<open>nil\<close>: \<^verbatim>\<open>u2\<close> on one remaining byte leaves an unfailed cursor, and
  \<^verbatim>\<open>parseVersion\<close>, which tests \<^verbatim>\<open>parser.err == nil\<close> after its two reads, builds a
  version 0.0 section over the bytes 4 to 8 of a buffer of five bytes.
\<close>

theorem read_failure_not_recorded:
  "u2 \<lparr>reader = [0x01], err = None\<rparr> = (0, \<lparr>reader = [], err = None\<rparr>)
   \<and> parseVersion [0xCA, 0xFE, 0xBA, 0xBE, 0x00] 4 1 =
       Inr (8, Some (Section 4 8 (Sprintf ''version %d.%d'' [U16 0, U16 0])
                 [Section 4 6 (Sprintf ''minor version: %d'' [U16 0]) [] 1,
                  Section 6 8 (Sprintf ''major version: %d'' [U16 0]) [] 2] 3), 4)"
  by code_simp

text \<open>
  C1. A buffer that does not start with the magic number should give no sections.
  \<^verbatim>\<open>parseMagicNumber\<close> checks the magic number, returns \<^verbatim>\<open>nil\<close> and does not advance, but
  \<^verbatim>\<open>parseClass\<close> goes on with the other parsing functions from offset 0: fourteen bytes
  that start with four zero bytes give six sections, the first of them a version read
  from the bytes where the magic number should be. (The model pass does treat the wrong
  magic number as an error; see the next section.)
\<close>

theorem parseClass_bad_magic_sections:
  "map_sum id ranges (parseClass [0, 0, 0, 0, 0, 1, 0, 0, 0, 0, 0, 0, 0, 0]) =
     Inr [(0, 4), (4, 6), (6, 8), (8, 10), (10, 12), (12, 14)]"
  by code_simp

text \<open>
  C10. A decode of any buffer should stay inside the buffer. Every loop of the pass is
  bounded by a 16-bit count, and a read never goes past the end of the bytes, but the
  offsets advance whether or not the bytes were there. On the four bytes of the magic
  number alone, \<^verbatim>\<open>parseVersion\<close> (which tests the length of the whole buffer, and an
  \<^verbatim>\<open>err\<close> that no read sets) advances to offset 8 and \<^verbatim>\<open>parseConstantPool\<close> slices the
  buffer there: \<^verbatim>\<open>parseClass\<close> panics with a slice bound out of range.
\<close>

theorem parseClass_truncated_panics:
  "parseClass [0xCA, 0xFE, 0xBA, 0xBE] = Inl SliceBoundsOutOfRange"
  by code_simp

section \<open>What holds of the reads and of a wrong magic number\<close>

lemma read_call:
  assumes "callByValue (readBody n) r = (x, r')"
  shows "err r' = err r \<and> length (reader r') \<le> length (reader r)
     \<and> (if err r = None \<and> n \<le> length (reader r)
        then x = BigEndian (take n (reader r)) \<and> reader r' = drop n (reader r)
        else x = 0 \<and> (reader r' = reader r \<or> reader r' = []))"
  using assms
  by (auto simp: callByValue_def readBody_def binaryRead_def ReadFull_def
      split: if_splits prod.splits)

text \<open>
  A read keeps the caller's \<^verbatim>\<open>err\<close> as it was and never leaves more bytes unread than
  before. With \<^verbatim>\<open>err\<close> unset and enough bytes left it returns the big-endian value of
  the bytes and consumes them; otherwise it returns zero, and the bytes left are the same
  (a failed cursor) or none (a short read).
\<close>

theorem reads_stay_inside:
  "(u1 r = (x1, r1) \<longrightarrow> err r1 = err r \<and> length (reader r1) \<le> length (reader r)
       \<and> (if err r = None \<and> 1 \<le> length (reader r)
          then x1 = BigEndian (take 1 (reader r)) \<and> reader r1 = drop 1 (reader r)
          else x1 = 0 \<and> (reader r1 = reader r \<or> reader r1 = [])))
   \<and> (u2 r = (x2, r2) \<longrightarrow> err r2 = err r \<and> length (reader r2) \<le> length (reader r)
       \<and> (if err r = None \<and> 2 \<le> length (reader r)
          then x2 = BigEndian (take 2 (reader r)) \<and> reader r2 = drop 2 (reader r)
          else x2 = 0 \<and> (reader r2 = reader r \<or> reader r2 = [])))
   \<and> (u4 r = (x4, r4) \<longrightarrow> err r4 = err r \<and> length (reader r4) \<le> length (reader r)
       \<and> (if err r = None \<and> 4 \<le> length (reader r)
          then x4 = BigEndian (take 4 (reader r)) \<and> reader r4 = drop 4 (reader r)
          else x4 = 0 \<and> (reader r4 = reader r \<or> reader r4 = [])))
   \<and> (u8 r = (x8, r8) \<longrightarrow> err r8 = err r \<and> length (reader r8) \<le> length (reader r)
       \<and> (if err r = None \<and> 8 \<le> length (reader r)
          then x8 = BigEndian (take 8 (reader r)) \<and> reader r8 = drop 8 (reader r)
          else x8 = 0 \<and> (reader r8 = reader r \<or> reader r8 = [])))"
  unfolding u1_def u2_def u4_def u8_def
  using read_call[of 1 r x1 r1] read_call[of 2 r x2 r2] read_call[of 4 r x4 r4]
    read_call[of 8 r x8 r8]
  by blast

text \<open>The theorem on a cursor with three bytes left.\<close>

theorem reads_stay_inside_witness:
  "u1 \<lparr>reader = [0x12, 0x34, 0x56], err = None\<rparr> = (0x12, \<lparr>reader = [0x34, 0x56], err = None\<rparr>)
   \<and> u2 \<lparr>reader = [0x12, 0x34, 0x56], err = None\<rparr> = (0x1234, \<lparr>reader = [0x56], err = None\<rparr>)
   \<and> fst (u4 \<lparr>reader = [0x12, 0x34, 0x56], err = None\<rparr>) = 0
   \<and> err (snd (u4 \<lparr>reader = [0x12, 0x34, 0x56], err = None\<rparr>)) = None
   \<and> fst (u8 \<lparr>reader = [0x12, 0x34, 0x56], err = None\<rparr>) = 0"
proof -
  let ?r = "\<lparr>reader = [0x12, 0x34, 0x56], err = None\<rparr>"
  have e: "u1 ?r = (0x12, \<lparr>reader = [0x34, 0x56], err = None\<rparr>)"
    "u2 ?r = (0x1234, \<lparr>reader = [0x56], err = None\<rparr>)"
    by code_simp+
  from reads_stay_inside[of ?r "fst (u1 ?r)" "snd (u1 ?r)" "fst (u2 ?r)" "snd (u2 ?r)"
      "fst (u4 ?r)" "snd (u4 ?r)" "fst (u8 ?r)" "snd (u8 ?r)"]
  have "fst (u4 ?r) = 0 \<and> err (snd (u4 ?r)) = None \<and> fst (u8 ?r) = 0"
    by simp
  with e show ?thesis by simp
qed

lemma failed_u2: "err r \<noteq> None \<Longrightarrow> u2 r = (0, r)"
  by (simp add: u2_def callByValue_def readBody_def)

lemma failed_u4: "err r \<noteq> None \<Longrightarrow> u4 r = (0, r)"
  by (simp add: u4_def callByValue_def readBody_def)

lemma newClassDecoder_bad_magic:
  assumes "fst (u4 \<lparr>reader = r, err = None\<rparr>) \<noteq> 0xCAFEBABE"
  shows "err (newClassDecoder r) = Some BadMagicNumber"
  using assms by (auto simp: newClassDecoder_def Let_def split: prod.splits)

lemma BigEndian4_bytes:
  fixes a b c d :: byte
  defines "w \<equiv> (BigEndian [a, b, c, d] :: 32 word)"
  shows "ucast (drop_bit 24 w) = a" "ucast (drop_bit 16 w) = b" "ucast (drop_bit 8 w) = c"
    "ucast w = d"
  unfolding w_def BigEndian_def
  by (simp_all, (rule bit_word_eqI, auto simp: bit_simps dest: bit_imp_le_length)+)

lemma magic_bytes:
  fixes a b c d :: byte
  assumes "(BigEndian [a, b, c, d] :: 32 word) = 0xCAFEBABE"
  shows "a = 0xCA \<and> b = 0xFE \<and> c = 0xBA \<and> d = 0xBE"
  using BigEndian4_bytes[of a b c d] unfolding assms by simp

lemma u4_magic:
  "fst (u4 \<lparr>reader = r, err = None\<rparr>) = 0xCAFEBABE \<longleftrightarrow> take 4 r = [0xCA, 0xFE, 0xBA, 0xBE]"
proof (cases "4 \<le> length r")
  case False
  then have "length (take 4 r) \<noteq> length [0xCA, 0xFE, 0xBA, 0xBE :: byte]" by simp
  then have "take 4 r \<noteq> [0xCA, 0xFE, 0xBA, 0xBE]" by metis
  with False show ?thesis
    by (simp add: u4_def callByValue_def readBody_def binaryRead_def ReadFull_def)
next
  case True
  then obtain a b c d rest where r: "r = a # b # c # d # rest"
    by (cases r; cases "tl r"; cases "tl (tl r)"; cases "tl (tl (tl r))") auto
  have "fst (u4 \<lparr>reader = r, err = None\<rparr>) = BigEndian [a, b, c, d]"
    by (simp add: r u4_def callByValue_def readBody_def binaryRead_def ReadFull_def)
  moreover have "(BigEndian [0xCA, 0xFE, 0xBA, 0xBE] :: 32 word) = 0xCAFEBABE"
    by (simp add: BigEndian_def)
  ultimately show ?thesis
    using magic_bytes[of a b c d] by (auto simp: r)
qed

text \<open>
  When the first four bytes are not the magic number, \<^verbatim>\<open>parseMagicNumber\<close> at offset 0
  gives no section, does not advance and takes no id, and \<^verbatim>\<open>ParseClass\<close> returns the zero
  class with the error of \<^verbatim>\<open>newClassDecoder\<close>.
\<close>

theorem bad_magic_is_an_error_of_the_model_pass:
  assumes "take 4 r \<noteq> [0xCA, 0xFE, 0xBA, 0xBE]"
  shows "ParseClass r = Inr (zeroClass, Some BadMagicNumber)
     \<and> parseMagicNumber r 0 g = Inr (0, None, g)"
proof -
  from assms have m: "fst (u4 \<lparr>reader = r, err = None\<rparr>) \<noteq> 0xCAFEBABE"
    by (simp add: u4_magic)
  define cr where "cr = newClassDecoder r"
  have e: "err cr = Some BadMagicNumber"
    unfolding cr_def using m by (rule newClassDecoder_bad_magic)
  then have 2: "u2 cr = (0, cr)" and 4: "u4 cr = (0, cr)"
    by (simp_all add: failed_u2 failed_u4)
  have a: "ParseClass r = Inr (zeroClass, Some BadMagicNumber)"
    unfolding ParseClass_def cr_def[symmetric]
    by (simp add: Let_def 2 4 bindp_def e zeroClass_def)
  have b: "parseMagicNumber r 0 g = Inr (0, None, g)"
    using m by (auto simp: parseMagicNumber_def newByteParser_def bindp_def split: prod.splits)
  from a b show ?thesis by simp
qed

text \<open>The theorem on fourteen bytes that start with four zero bytes.\<close>

theorem bad_magic_is_an_error_of_the_model_pass_witness:
  "ParseClass [0, 0, 0, 0, 0, 1, 0, 0, 0, 0, 0, 0, 0, 0] = Inr (zeroClass, Some BadMagicNumber)
   \<and> parseMagicNumber [0, 0, 0, 0, 0, 1, 0, 0, 0, 0, 0, 0, 0, 0] 0 0 = Inr (0, None, 0)"
  using bad_magic_is_an_error_of_the_model_pass[of "[0, 0, 0, 0, 0, 1, 0, 0, 0, 0, 0, 0, 0, 0]" 0]
  by simp

section \<open>The only panic of parseClass\<close>

lemma newByteParser_Inl: "newByteParser bytes index = Inl p \<Longrightarrow> p = SliceBoundsOutOfRange"
  by (simp add: newByteParser_def split: if_splits)

lemma only_slices_funcs: "\<forall>f \<in> set parsingFuncs. only_slices f"
  by (auto simp: parsingFuncs_def only_slices_def parseMagicNumber_def parseVersion_def
      parseConstantPool_def parseAccessFlags_def parseThisClass_def parseSuperClass_def
      parseInterfaces_def bindp_def Let_def
      dest: newByteParser_Inl split: sum.splits prod.splits if_splits)

lemma runFuncs_Inl:
  "\<forall>f \<in> set fs. only_slices f \<Longrightarrow> runFuncs fs bytes index g secs = Inl p \<Longrightarrow>
   p = SliceBoundsOutOfRange"
proof (induction fs arbitrary: index g secs)
  case Nil
  then show ?case by simp
next
  case (Cons f fs)
  show ?case
  proof (cases "f bytes index g")
    case (Inl q)
    with Cons.prems show ?thesis by (simp add: bindp_def only_slices_def)
  next
    case (Inr t)
    obtain n1 sec g1 where t: "t = (n1, sec, g1)" by (cases t)
    with Inr Cons.prems(2) have
      "runFuncs fs bytes n1 g1 (case sec of None \<Rightarrow> secs | Some s \<Rightarrow> secs @ [s]) = Inl p"
      by (simp add: bindp_def)
    with Cons.IH Cons.prems(1) show ?thesis by simp
  qed
qed

text \<open>
  \<^verbatim>\<open>parseClass\<close> is a total function of the buffer: every loop of the pass is bounded by a
  count it has read. When it does not return a forest it panics, and the only panic it
  can raise is the slice bound out of range of \<^verbatim>\<open>newByteParser\<close>, when an offset has moved
  past the end of the buffer.
\<close>

theorem parseClass_only_panic:
  "parseClass bytes = Inl p \<Longrightarrow> p = SliceBoundsOutOfRange"
  unfolding parseClass_def by (rule runFuncs_Inl[OF only_slices_funcs])

text \<open>The theorem on the empty buffer.\<close>

theorem parseClass_only_panic_witness:
  "parseClass [] = Inl SliceBoundsOutOfRange"
proof -
  have "case parseClass [] of Inl p \<Rightarrow> True | Inr s \<Rightarrow> False"
    by code_simp
  then obtain p where p: "parseClass [] = Inl p"
    by (cases "parseClass []") auto
  from parseClass_only_panic[OF p] p show ?thesis by simp
qed

section \<open>The byte ranges of the sections (C4)\<close>

lemma fits_Nil: "lo \<le> hi \<Longrightarrow> fits lo [] hi"
  by (simp add: fits_def)

lemma fits_snoc:
  "fits lo cs mid \<Longrightarrow> mid \<le> StartIndex c \<Longrightarrow> StartIndex c \<le> EndIndex c \<Longrightarrow> EndIndex c \<le> hi
   \<Longrightarrow> fits lo (cs @ [c]) hi"
  by (fastforce simp: fits_def sorted_wrt_append)

lemma fits_mono: "fits lo cs hi \<Longrightarrow> hi \<le> hi' \<Longrightarrow> fits lo cs hi'"
  by (fastforce simp: fits_def)

lemma fits_siblings: "fits lo cs hi \<Longrightarrow> siblings_ordered cs"
  unfolding fits_def siblings_ordered_def
  by (erule conjE, erule conjE, erule sorted_wrt_mono_rel[rotated]) (auto simp: overlap_def)

lemma fits_bounds: "fits lo cs hi \<Longrightarrow> c \<in> set cs \<Longrightarrow> lo \<le> StartIndex c \<and> EndIndex c \<le> hi"
  by (simp add: fits_def)

lemma cpItem_Some_layout:
  assumes "cpItem i parser next g = (Some item, parser', next', g', i')"
  shows "StartIndex item = next \<and> EndIndex item = next' \<and> next < next' \<and> layout item"
  using assms
  by (auto simp: cpItem_def Let_def leaf_def nextId_def siblings_ordered_def overlap_def
      add_pos_nonneg split: prod.splits if_splits)

lemma cpItem_None_next:
  assumes "cpItem i parser next g = (None, parser', next', g', i')"
  shows "next' = next + 1 \<and> g' = g + 2"
  using assms
  by (auto simp: cpItem_def Let_def leaf_def nextId_def split: prod.splits if_splits)

lemma cpLoop_layout:
  "cpLoop n i parser next g children = (cs, next', g') \<Longrightarrow>
   fits lo children next \<Longrightarrow> \<forall>c \<in> set children. layout c \<Longrightarrow>
   fits lo cs next' \<and> (\<forall>c \<in> set cs. layout c)"
proof (induction n i parser "next" g children rule: cpLoop.induct)
  case (1 n i parser nxt g children)
  show ?case
  proof (cases "i < n")
    case False
    with "1.prems" show ?thesis by simp
  next
    case True
    obtain it p1 n1 g1 i1 where it: "cpItem i parser nxt g = (it, p1, n1, g1, i1)"
      by (metis prod_cases5)
    show ?thesis
    proof (cases it)
      case None
      with it True "1.prems" cpItem_None_next[of i parser nxt g p1 n1 g1 i1]
      show ?thesis by (auto intro: fits_mono)
    next
      case (Some item)
      from it Some have s: "cpItem i parser nxt g = (Some item, p1, n1, g1, i1)" by simp
      note L = cpItem_Some_layout[OF s]
      have f: "fits lo (children @ [item]) n1"
        using "1.prems"(2) L by (intro fits_snoc[where mid = nxt]) auto
      have l: "\<forall>c \<in> set (children @ [item]). layout c"
        using "1.prems"(3) L by auto
      have r: "cpLoop n (i1 + 1) p1 n1 g1 (children @ [item]) = (cs, next', g')"
        using "1.prems"(1) True s by simp
      show ?thesis
        by (rule "1.IH"[OF True s[symmetric] refl refl refl refl r f l])
    qed
  qed
qed

lemma lays_out_parseMagicNumber: "lays_out parseMagicNumber"
  by (auto simp: lays_out_def parseMagicNumber_def bindp_def nextId_def siblings_ordered_def
      Let_def split: sum.splits prod.splits if_splits)

lemma lays_out_parseVersion: "lays_out parseVersion"
  by (auto simp: lays_out_def parseVersion_def bindp_def nextId_def siblings_ordered_def
      overlap_def Let_def split: sum.splits prod.splits if_splits)

lemma lays_out_parseThisClass: "lays_out parseThisClass"
  by (auto simp: lays_out_def parseThisClass_def bindp_def nextId_def siblings_ordered_def
      Let_def split: sum.splits prod.splits if_splits)

lemma lays_out_parseSuperClass: "lays_out parseSuperClass"
  by (auto simp: lays_out_def parseSuperClass_def bindp_def nextId_def siblings_ordered_def
      Let_def split: sum.splits prod.splits if_splits)

lemma lays_out_parseAccessFlags: "lays_out parseAccessFlags"
  by (auto simp: lays_out_def parseAccessFlags_def bindp_def nextId_def flagSec_def ranges_def
      siblings_ordered_def Let_def eval_nat_numeral split: sum.splits prod.splits if_splits)

lemma interfacesLoop_layout:
  "interfacesLoop k parser next g children = (cs, next', g') \<Longrightarrow>
   fits lo children next \<Longrightarrow> \<forall>c \<in> set children. layout c \<Longrightarrow>
   fits lo cs next' \<and> (\<forall>c \<in> set cs. layout c)"
proof (induction k arbitrary: parser "next" g children)
  case 0
  then show ?case by simp
next
  case (Suc k)
  obtain x p1 where x: "u2 parser = (x, p1)" by (cases "u2 parser")
  define c where
    "c = Section next (next + 2) (Sprintf ''constant pool index for interface: '' [U16 x]) [] g"
  have r: "interfacesLoop k p1 (next + 2) (g + 1) (children @ [c]) = (cs, next', g')"
    using Suc.prems(1) x by (simp add: nextId_def c_def)
  have f: "fits lo (children @ [c]) (next + 2)"
    using Suc.prems(2) by (intro fits_snoc[where mid = "next"]) (auto simp: c_def)
  have l: "\<forall>s \<in> set (children @ [c]). layout s"
    using Suc.prems(3) by (auto simp: c_def siblings_ordered_def)
  show ?case by (rule Suc.IH[OF r f l])
qed

lemma lays_out_parseInterfaces: "lays_out parseInterfaces"
  unfolding lays_out_def
proof (intro allI impI)
  fix bytes index g "next" sec g'
  assume a: "parseInterfaces bytes index g = Inr (next, sec, g')"
  then obtain parser where p: "newByteParser bytes index = Inr parser"
    by (auto simp: parseInterfaces_def bindp_def split: sum.splits)
  obtain c p1 where c: "u2 parser = (c, p1)" by (cases "u2 parser")
  obtain cs n1 g1 where lp: "interfacesLoop (nat (uint c)) p1 (index + 2) g [] = (cs, n1, g1)"
    by (metis prod_cases3)
  have f: "fits index cs n1 \<and> (\<forall>c \<in> set cs. layout c)"
    by (rule interfacesLoop_layout[OF lp]) (auto simp: fits_def)
  from a p c lp have res: "next = n1"
    "sec = Some (Section index n1 (Sprintf ''class implements %v interfaces'' [GoInt (uint c)]) cs g1)"
    by (auto simp: parseInterfaces_def bindp_def nextId_def)
  from f have "index \<le> n1" by (simp add: fits_def)
  with f res show "index \<le> next \<and>
        (\<forall>s. sec = Some s \<longrightarrow> StartIndex s = index \<and> EndIndex s = next \<and> layout s)"
    by (auto simp: fits_siblings dest: fits_bounds)
qed

lemma lays_out_parseConstantPool: "lays_out parseConstantPool"
  unfolding lays_out_def
proof (intro allI impI)
  fix bytes index g "next" sec g'
  assume a: "parseConstantPool bytes index g = Inr (next, sec, g')"
  then obtain parser where p: "newByteParser bytes index = Inr parser"
    by (auto simp: parseConstantPool_def bindp_def split: sum.splits)
  obtain c p1 where c: "u2 parser = (c, p1)" by (cases "u2 parser")
  define cnt where "cnt = leaf g index (index + 2) (Sprintf ''constant pool count: %d'' [U16 c])"
  obtain cs n1 g1 where lp: "cpLoop (uint (c - 1)) 0 p1 (index + 2) (g + 1) [cnt] = (cs, n1, g1)"
    by (metis prod_cases3)
  have f: "fits index cs n1 \<and> (\<forall>c \<in> set cs. layout c)"
    by (rule cpLoop_layout[OF lp]) (auto simp: fits_def cnt_def leaf_def siblings_ordered_def)
  from a p c lp have res: "next = n1"
    "sec = Some (Section index n1
        (Sprintf ''constant pool with %d items'' [GoInt (int (length cs) - 1)]) cs g1)"
    by (auto simp: parseConstantPool_def bindp_def nextId_def cnt_def)
  from f have "index \<le> n1" by (simp add: fits_def)
  with f res show "index \<le> next \<and>
        (\<forall>s. sec = Some s \<longrightarrow> StartIndex s = index \<and> EndIndex s = next \<and> layout s)"
    by (auto simp: fits_siblings dest: fits_bounds)
qed

lemma runFuncs_layout:
  "\<forall>f \<in> set fs. lays_out f \<Longrightarrow> runFuncs fs bytes index g secs = Inr out \<Longrightarrow>
   fits 0 secs index \<Longrightarrow> \<forall>s \<in> set secs. layout s \<Longrightarrow>
   (\<exists>hi. fits 0 out hi) \<and> (\<forall>s \<in> set out. layout s)"
proof (induction fs arbitrary: index g secs)
  case Nil
  then show ?case by auto
next
  case (Cons f fs)
  from Cons.prems(2) obtain n1 sec g1 where
    r: "f bytes index g = Inr (n1, sec, g1)" and
    k: "runFuncs fs bytes n1 g1 (case sec of None \<Rightarrow> secs | Some s \<Rightarrow> secs @ [s]) = Inr out"
    by (auto simp: bindp_def split: sum.splits)
  from Cons.prems(1) have "lays_out f" by simp
  with r have g: "index \<le> n1"
    "\<And>s. sec = Some s \<Longrightarrow> StartIndex s = index \<and> EndIndex s = n1 \<and> layout s"
    unfolding lays_out_def by blast+
  have f1: "fits 0 (case sec of None \<Rightarrow> secs | Some s \<Rightarrow> secs @ [s]) n1"
  proof (cases sec)
    case None
    with Cons.prems(3) g(1) show ?thesis by (auto intro: fits_mono)
  next
    case (Some s)
    with g(2)[OF Some] g(1) Cons.prems(3) show ?thesis
      by (auto intro!: fits_snoc[where mid = index])
  qed
  have l1: "\<forall>s \<in> set (case sec of None \<Rightarrow> secs | Some s \<Rightarrow> secs @ [s]). layout s"
    using Cons.prems(4) g(2) by (cases sec) auto
  from Cons.prems(1) have "\<forall>f \<in> set fs. lays_out f" by simp
  from Cons.IH[OF this k f1 l1] show ?case .
qed

text \<open>
  C4, as the code has it. In every forest that \<^verbatim>\<open>parseClass\<close> returns, every section at
  every depth has \<open>start \<le> end\<close> and holds the ranges of its children; the children of
  every section but the access-flags section do not overlap and are ordered by start
  offset, and so are the roots. The ten children of the access-flags section share its two
  bytes: the four flags of the low byte, at \<open>[start + 1, start + 2)\<close>, come first, the six
  flags of the high byte, at \<open>[start, start + 1)\<close>, after them.
\<close>

theorem parseClass_layout:
  assumes "parseClass bytes = Inr secs"
  shows "list_all layout secs \<and> siblings_ordered secs"
proof -
  have "\<forall>f \<in> set parsingFuncs. lays_out f"
    by (simp add: parsingFuncs_def lays_out_parseMagicNumber lays_out_parseVersion
        lays_out_parseConstantPool lays_out_parseAccessFlags lays_out_parseThisClass
        lays_out_parseSuperClass lays_out_parseInterfaces)
  from runFuncs_layout[OF this assms[unfolded parseClass_def]]
  have "(\<exists>hi. fits 0 secs hi) \<and> (\<forall>s \<in> set secs. layout s)"
    by (simp add: fits_def)
  then show ?thesis by (auto simp: list_all_iff fits_siblings)
qed

text \<open>The theorem at \<open>sampleClass\<close>, which decodes without a panic.\<close>

theorem parseClass_layout_witness:
  "\<exists>secs. parseClass sampleClass = Inr secs \<and> list_all layout secs \<and> siblings_ordered secs"
proof -
  have "case parseClass sampleClass of Inl e \<Rightarrow> False | Inr secs \<Rightarrow> True"
    by code_simp
  then obtain secs where s: "parseClass sampleClass = Inr secs"
    by (cases "parseClass sampleClass") auto
  from parseClass_layout[OF s] s show ?thesis by blast
qed

text \<open>
  C4 as the specification states it, with no exception for the access flags, fails on
  \<open>sampleClass\<close>: the flag sections overlap and the low byte comes before the high byte.
\<close>

theorem parseClass_layout_claimed_counterexample:
  "map_sum id (list_all layout_claimed) (parseClass sampleClass) = Inr False"
  by code_simp

section \<open>The ids of the sections (C5)\<close>

lemma ids_from_append:
  "ids_from lo xs mid \<Longrightarrow> ids_from mid ys hi \<Longrightarrow> xs \<noteq> [] \<or> mid = lo \<Longrightarrow>
   ids_from lo (xs @ ys) hi"
  by (fastforce simp: ids_from_def sorted_wrt_append hd_append)

lemma ids_from_mono: "ids_from lo xs hi \<Longrightarrow> hi \<le> hi' \<Longrightarrow> ids_from lo xs hi'"
  by (fastforce simp: ids_from_def)

lemma preorder_unfold: "preorder s = Id' s # concat (map preorder (Children s))"
  by (cases s) simp

lemma preorder_nonempty: "preorder s \<noteq> []"
  by (cases s) simp

lemma concat_preorder_nonempty: "cs \<noteq> [] \<Longrightarrow> concat (map preorder cs) \<noteq> []"
  by (cases cs) (simp_all add: preorder_nonempty)

lemma Id_in_preorder: "Id' s \<in> set (preorder s)"
  by (cases s) simp

lemma cpItem_Some_ids:
  assumes "cpItem i parser next g = (Some item, parser', next', g', i')"
  shows "ids_from g (preorder item) g'"
  using assms
  by (auto simp: cpItem_def Let_def leaf_def nextId_def ids_from_def
      split: prod.splits if_splits)

lemma cpLoop_ids:
  "cpLoop n i parser next g children = (cs, next', g') \<Longrightarrow>
   ids_from g0 (concat (map preorder children)) g \<Longrightarrow> children \<noteq> [] \<Longrightarrow>
   ids_from g0 (concat (map preorder cs)) g' \<and> cs \<noteq> []"
proof (induction n i parser "next" g children rule: cpLoop.induct)
  case (1 n i parser nxt g children)
  show ?case
  proof (cases "i < n")
    case False
    with "1.prems" show ?thesis by simp
  next
    case True
    obtain it p1 n1 g1 i1 where it: "cpItem i parser nxt g = (it, p1, n1, g1, i1)"
      by (metis prod_cases5)
    show ?thesis
    proof (cases it)
      case None
      with it True "1.prems" cpItem_None_next[of i parser nxt g p1 n1 g1 i1]
      show ?thesis by (auto intro: ids_from_mono)
    next
      case (Some item)
      from it Some have s: "cpItem i parser nxt g = (Some item, p1, n1, g1, i1)" by simp
      have ne: "concat (map preorder children) \<noteq> []"
        using "1.prems"(3) by (rule concat_preorder_nonempty)
      have f: "ids_from g0 (concat (map preorder (children @ [item]))) g1"
        using ids_from_append[OF "1.prems"(2) cpItem_Some_ids[OF s]] ne by simp
      have r: "cpLoop n (i1 + 1) p1 n1 g1 (children @ [item]) = (cs, next', g')"
        using "1.prems"(1) True s by simp
      show ?thesis
        by (rule "1.IH"[OF True s[symmetric] refl refl refl refl r f]) simp
    qed
  qed
qed

lemma interfacesLoop_ids:
  "interfacesLoop k parser next g children = (cs, next', g') \<Longrightarrow>
   ids_from g0 (concat (map preorder children)) g \<Longrightarrow> children \<noteq> [] \<or> g = g0 \<Longrightarrow>
   ids_from g0 (concat (map preorder cs)) g' \<and> (cs \<noteq> [] \<or> g' = g0)"
proof (induction k arbitrary: parser "next" g children)
  case 0
  then show ?case by auto
next
  case (Suc k)
  obtain x p1 where x: "u2 parser = (x, p1)" by (cases "u2 parser")
  define c where
    "c = Section next (next + 2) (Sprintf ''constant pool index for interface: '' [U16 x]) [] g"
  have r: "interfacesLoop k p1 (next + 2) (g + 1) (children @ [c]) = (cs, next', g')"
    using Suc.prems(1) x by (simp add: nextId_def c_def)
  have c: "ids_from g (preorder c) (g + 1)"
    by (simp add: c_def ids_from_def)
  have ne: "concat (map preorder children) \<noteq> [] \<or> g = g0"
    using Suc.prems(3) concat_preorder_nonempty[of children] by blast
  have f: "ids_from g0 (concat (map preorder (children @ [c]))) (g + 1)"
    using ids_from_append[OF Suc.prems(2) c] ne by simp
  show ?case by (rule Suc.IH[OF r f]) simp
qed

lemma numbers_parseMagicNumber: "numbers parseMagicNumber"
  by (auto simp: numbers_def parseMagicNumber_def bindp_def nextId_def built_order_def
      ids_from_def Let_def split: sum.splits prod.splits if_splits)

lemma numbers_parseVersion: "numbers parseVersion"
  by (auto simp: numbers_def parseVersion_def bindp_def nextId_def built_order_def
      ids_from_def Let_def split: sum.splits prod.splits if_splits)

lemma numbers_parseThisClass: "numbers parseThisClass"
  by (auto simp: numbers_def parseThisClass_def bindp_def nextId_def built_order_def
      ids_from_def Let_def split: sum.splits prod.splits if_splits)

lemma numbers_parseSuperClass: "numbers parseSuperClass"
  by (auto simp: numbers_def parseSuperClass_def bindp_def nextId_def built_order_def
      ids_from_def Let_def split: sum.splits prod.splits if_splits)

lemma numbers_parseAccessFlags: "numbers parseAccessFlags"
  by (auto simp: numbers_def parseAccessFlags_def bindp_def nextId_def flagSec_def
      built_order_def ids_from_def Let_def split: sum.splits prod.splits if_splits)

lemma numbers_parseInterfaces: "numbers parseInterfaces"
  unfolding numbers_def
proof (intro allI impI)
  fix bytes index g "next" sec g'
  assume a: "parseInterfaces bytes index g = Inr (next, sec, g')"
  then obtain parser where p: "newByteParser bytes index = Inr parser"
    by (auto simp: parseInterfaces_def bindp_def split: sum.splits)
  obtain c p1 where c: "u2 parser = (c, p1)" by (cases "u2 parser")
  obtain cs n1 g1 where lp: "interfacesLoop (nat (uint c)) p1 (index + 2) g [] = (cs, n1, g1)"
    by (metis prod_cases3)
  have f: "ids_from g (concat (map preorder cs)) g1 \<and> (cs \<noteq> [] \<or> g1 = g)"
    by (rule interfacesLoop_ids[OF lp]) (auto simp: ids_from_def)
  from a p c lp have res: "g' = g1 + 1"
    "sec = Some (Section index n1 (Sprintf ''class implements %v interfaces'' [GoInt (uint c)]) cs g1)"
    by (auto simp: parseInterfaces_def bindp_def nextId_def)
  have "ids_from g1 [g1] (g1 + 1)" by (simp add: ids_from_def)
  from ids_from_append[OF conjunct1[OF f] this] f concat_preorder_nonempty[of cs]
  have "ids_from g (concat (map preorder cs) @ [g1]) (g1 + 1)"
    by blast
  with res show "case sec of None \<Rightarrow> g' = g | Some s \<Rightarrow> ids_from g (built_order s) g'"
    by (simp add: built_order_def)
qed

lemma numbers_parseConstantPool: "numbers parseConstantPool"
  unfolding numbers_def
proof (intro allI impI)
  fix bytes index g "next" sec g'
  assume a: "parseConstantPool bytes index g = Inr (next, sec, g')"
  then obtain parser where p: "newByteParser bytes index = Inr parser"
    by (auto simp: parseConstantPool_def bindp_def split: sum.splits)
  obtain c p1 where c: "u2 parser = (c, p1)" by (cases "u2 parser")
  define cnt where "cnt = leaf g index (index + 2) (Sprintf ''constant pool count: %d'' [U16 c])"
  obtain cs n1 g1 where lp: "cpLoop (uint (c - 1)) 0 p1 (index + 2) (g + 1) [cnt] = (cs, n1, g1)"
    by (metis prod_cases3)
  have f: "ids_from g (concat (map preorder cs)) g1 \<and> cs \<noteq> []"
    by (rule cpLoop_ids[OF lp]) (auto simp: ids_from_def cnt_def leaf_def)
  from a p c lp have res: "g' = g1 + 1"
    "sec = Some (Section index n1
        (Sprintf ''constant pool with %d items'' [GoInt (int (length cs) - 1)]) cs g1)"
    by (auto simp: parseConstantPool_def bindp_def nextId_def cnt_def)
  have "ids_from g1 [g1] (g1 + 1)" by (simp add: ids_from_def)
  from ids_from_append[OF conjunct1[OF f] this] f concat_preorder_nonempty[of cs]
  have "ids_from g (concat (map preorder cs) @ [g1]) (g1 + 1)"
    by blast
  with res show "case sec of None \<Rightarrow> g' = g | Some s \<Rightarrow> ids_from g (built_order s) g'"
    by (simp add: built_order_def)
qed

lemma built_order_nonempty: "built_order s \<noteq> []"
  by (simp add: built_order_def)

lemma runFuncs_ids:
  "\<forall>f \<in> set fs. numbers f \<Longrightarrow> runFuncs fs bytes index g secs = Inr out \<Longrightarrow>
   ids_from 0 (concat (map built_order secs)) g \<Longrightarrow> secs \<noteq> [] \<or> g = 0 \<Longrightarrow>
   \<exists>hi. ids_from 0 (concat (map built_order out)) hi"
proof (induction fs arbitrary: index g secs)
  case Nil
  then show ?case by auto
next
  case (Cons f fs)
  from Cons.prems(2) obtain n1 sec g1 where
    r: "f bytes index g = Inr (n1, sec, g1)" and
    k: "runFuncs fs bytes n1 g1 (case sec of None \<Rightarrow> secs | Some s \<Rightarrow> secs @ [s]) = Inr out"
    by (auto simp: bindp_def split: sum.splits)
  from Cons.prems(1) have "numbers f" by simp
  with r have n: "case sec of None \<Rightarrow> g1 = g | Some s \<Rightarrow> ids_from g (built_order s) g1"
    unfolding numbers_def by blast
  let ?secs = "case sec of None \<Rightarrow> secs | Some s \<Rightarrow> secs @ [s]"
  have f1: "ids_from 0 (concat (map built_order ?secs)) g1 \<and> (?secs \<noteq> [] \<or> g1 = 0)"
  proof (cases sec)
    case None
    with n Cons.prems(3,4) show ?thesis by simp
  next
    case (Some s)
    with n have s: "ids_from g (built_order s) g1" by simp
    have "concat (map built_order secs) \<noteq> [] \<or> g = 0"
      using Cons.prems(4) by (cases secs) (auto simp: built_order_nonempty)
    from ids_from_append[OF Cons.prems(3) s this] Some show ?thesis by simp
  qed
  from Cons.prems(1) have "\<forall>f \<in> set fs. numbers f" by simp
  from Cons.IH[OF this k conjunct1[OF f1] conjunct2[OF f1]] show ?case .
qed

lemma sorted_wrt_concat_elem:
  "sorted_wrt P (concat xss) \<Longrightarrow> xs \<in> set xss \<Longrightarrow> sorted_wrt P xs"
  by (induction xss) (auto simp: sorted_wrt_append)

lemma built_order_parent:
  assumes "sorted_wrt (<) (built_order s)" and "c \<in> set (Children s)"
  shows "Id' c < Id' s \<and> (\<forall>d \<in> set (Children c). Id' c < Id' d)"
proof -
  from assms(1) have a: "sorted_wrt (<) (concat (map preorder (Children s)))"
    and b: "\<forall>x \<in> set (concat (map preorder (Children s))). x < Id' s"
    by (auto simp: built_order_def sorted_wrt_append)
  from assms(2) have "Id' c \<in> set (concat (map preorder (Children s)))"
    using Id_in_preorder[of c] by auto
  with b have 1: "Id' c < Id' s" by blast
  from a assms(2) have "sorted_wrt (<) (preorder c)"
    by (auto intro: sorted_wrt_concat_elem)
  then have "\<forall>x \<in> set (concat (map preorder (Children c))). Id' c < x"
    by (subst (asm) preorder_unfold) simp
  then have 2: "\<forall>d \<in> set (Children c). Id' c < Id' d"
    using Id_in_preorder by auto
  from 1 2 show ?thesis by blast
qed

text \<open>
  C5, as the code has it. The ids of one decode start at 0 and are strictly increasing in
  the order in which the sections are built: the children of a root (the version, the
  constant pool, the access flags, the interfaces) before the root itself, and an entry of
  the constant pool before its own children. So a root's id is larger than the ids of its
  children, and an entry's id is smaller than the ids of its children.
\<close>

theorem parseClass_ids:
  assumes "parseClass bytes = Inr secs"
  shows "ids_built secs
     \<and> (\<forall>s \<in> set secs. \<forall>c \<in> set (Children s).
           Id' c < Id' s \<and> (\<forall>d \<in> set (Children c). Id' c < Id' d))"
proof -
  have "\<forall>f \<in> set parsingFuncs. numbers f"
    by (simp add: parsingFuncs_def numbers_parseMagicNumber numbers_parseVersion
        numbers_parseConstantPool numbers_parseAccessFlags numbers_parseThisClass
        numbers_parseSuperClass numbers_parseInterfaces)
  from runFuncs_ids[OF this assms[unfolded parseClass_def]]
  obtain hi where h: "ids_from 0 (concat (map built_order secs)) hi"
    by (auto simp: ids_from_def)
  then have 1: "ids_built secs"
    by (auto simp: ids_built_def ids_from_def Let_def)
  from h have "sorted_wrt (<) (concat (map built_order secs))"
    by (simp add: ids_from_def)
  then have "\<forall>s \<in> set secs. sorted_wrt (<) (built_order s)"
    by (auto intro: sorted_wrt_concat_elem)
  with 1 show ?thesis by (auto dest: built_order_parent)
qed

text \<open>The theorem at \<open>sampleClass\<close>.\<close>

theorem parseClass_ids_witness:
  "\<exists>secs. parseClass sampleClass = Inr secs \<and> ids_built secs
     \<and> list_all (\<lambda>s. list_all (\<lambda>c. Id' c < Id' s \<and> list_all (\<lambda>d. Id' c < Id' d) (Children c))
          (Children s)) secs"
proof -
  have "case parseClass sampleClass of Inl e \<Rightarrow> False | Inr secs \<Rightarrow> True"
    by code_simp
  then obtain secs where s: "parseClass sampleClass = Inr secs"
    by (cases "parseClass sampleClass") auto
  from parseClass_ids[OF s] s show ?thesis by (auto simp: list_all_iff)
qed

text \<open>
  C5 as the specification states it, parents before their children throughout, fails on
  \<open>sampleClass\<close>: the version section has id 3 and its children have the ids 1 and 2.
\<close>

theorem parseClass_ids_claimed_counterexample:
  "map_sum id ids_claimed (parseClass sampleClass) = Inr False"
  by code_simp

section \<open>The pool of the model pass (C9)\<close>

lemma cpAt_Nil: "cpAt [] idx = Inl IndexOutOfRange"
  by (simp add: cpAt_def)

lemma parseMethods_empty_pool:
  assumes "ConstantPoolItems c = []" and "parseMethods c n cr = Inr (ms, cr')"
  shows "n = 0 \<and> ms = []"
  using assms
  by (cases n) (auto simp: cpAt_Nil bindp_def Let_def split: prod.splits)

lemma ParseClass_Inr:
  assumes "ParseClass r = Inr (c, e)"
  shows "ConstantPoolItems c = [] \<and> methods c = []"
proof -
  have m: "parseMethods c0 n cr = Inr (ms, cr') \<Longrightarrow> ConstantPoolItems c0 = [] \<Longrightarrow> ms = []"
    for c0 n cr ms cr'
    using parseMethods_empty_pool by blast
  from assms show ?thesis
    by (auto simp: ParseClass_def Let_def bindp_def zeroClass_def
        split: prod.splits sum.splits dest!: m)
qed

text \<open>
  C9. Whatever the input, a class that \<^verbatim>\<open>ParseClass\<close> returns has an empty constant pool,
  and no accessor that goes through the pool gives an answer from it: \<^verbatim>\<open>Name\<close> and
  \<^verbatim>\<open>getSuperName\<close> panic with an index out of range, \<^verbatim>\<open>getField\<close> panics for every
  name, and \<^verbatim>\<open>hasMethodCalled\<close> and \<^verbatim>\<open>resolveMethod\<close> find nothing for any name, since the
  class has no methods: decoding a method looks its descriptor up in the empty pool and
  panics.
\<close>

theorem ParseClass_pool_never_populated:
  assumes "ParseClass r = Inr (c, e)"
  shows "ConstantPoolItems c = []
     \<and> Class_Name c = Inl IndexOutOfRange
     \<and> getSuperName c = Inl IndexOutOfRange
     \<and> (\<forall>name. \<exists>p. getField c name = Inl p)
     \<and> (\<forall>name. hasMethodCalled c name = Inr False)
     \<and> (\<forall>name descriptor. resolveMethod c name descriptor = Inr (None, []))"
proof -
  note e = ParseClass_Inr[OF assms]
  have f: "\<exists>p. getField c name = Inl p" for name
    using e by (cases "fields_c c") (auto simp: getField_def cpAt_Nil bindp_def)
  from e f show ?thesis
    by (simp add: Class_Name_def getSuperName_def hasMethodCalled_def resolveMethod_def
        cpAt_Nil bindp_def)
qed

text \<open>The theorem at \<open>fieldOnlyClass\<close>, which \<^verbatim>\<open>ParseClass\<close> decodes.\<close>

theorem ParseClass_pool_never_populated_witness:
  "\<exists>c e. ParseClass fieldOnlyClass = Inr (c, e)
     \<and> ConstantPoolItems c = []
     \<and> Class_Name c = Inl IndexOutOfRange
     \<and> getSuperName c = Inl IndexOutOfRange
     \<and> (\<exists>p. getField c ''x'' = Inl p)
     \<and> hasMethodCalled c ''main'' = Inr False
     \<and> resolveMethod c ''main'' ''()V'' = Inr (None, [])"
proof -
  have "case ParseClass fieldOnlyClass of Inl p \<Rightarrow> False | Inr r \<Rightarrow> True"
    by code_simp
  then obtain c e where s: "ParseClass fieldOnlyClass = Inr (c, e)"
    by (cases "ParseClass fieldOnlyClass") auto
  from ParseClass_pool_never_populated[OF s] s show ?thesis by blast
qed

section \<open>Cross-references that land on the wrong kind (C2)\<close>

lemma lands_cpAt: "lands c index item \<Longrightarrow> cpAt (ConstantPoolItems c) (index - 1) = Inr item"
  by (simp add: lands_def cpAt_def)

lemma sits_cpAtInt: "sits c index item \<Longrightarrow> cpAtInt (ConstantPoolItems c) index = Inr item"
  by (simp add: sits_def cpAtInt_def)

lemma textAt_lands: "textAt c index = Some s \<longleftrightarrow> lands c index (utf8String s)"
  by (auto simp: textAt_def lands_def split: ConstantPoolItem.splits)

lemma as_wrong:
  "\<not> isClassInfo item \<Longrightarrow> asClassInfo item = Inl InterfaceConversion"
  "\<not> isUtf8String item \<Longrightarrow> asUtf8String item = Inl InterfaceConversion"
  "\<not> isNameAndType item \<Longrightarrow> asNameAndType item = Inl InterfaceConversion"
  "\<not> isMethodRef item \<Longrightarrow> asMethodRef item = Inl InterfaceConversion"
  "\<not> isInterfaceMethodRef item \<Longrightarrow> asInterfaceMethodRef item = Inl InterfaceConversion"
  "\<not> isFieldRef item \<Longrightarrow> asFieldRef item = Inl InterfaceConversion"
  "\<not> isStringConstant item \<Longrightarrow> asStringConstant item = Inl InterfaceConversion"
  "\<not> isLongConstant item \<Longrightarrow> asLongConstant item = Inl InterfaceConversion"
  by (cases item; simp add: isClassInfo_def asClassInfo_def isUtf8String_def asUtf8String_def
      isNameAndType_def asNameAndType_def isMethodRef_def asMethodRef_def
      isInterfaceMethodRef_def asInterfaceMethodRef_def isFieldRef_def asFieldRef_def
      isStringConstant_def asStringConstant_def isLongConstant_def asLongConstant_def)+

lemma as_right:
  "asClassInfo (classInfo n) = Inr n" "asUtf8String (utf8String s) = Inr s"
  "asNameAndType (nameAndType n d) = Inr (n, d)" "asMethodRef (methodRef a b) = Inr (a, b)"
  "asInterfaceMethodRef (interfaceMethodRef a b) = Inr (a, b)"
  "asFieldRef (fieldRef a b) = Inr (a, b)" "asStringConstant (stringConstant u) = Inr u"
  "asLongConstant (longConstant v) = Inr v"
  by (simp_all add: asClassInfo_def asUtf8String_def asNameAndType_def asMethodRef_def
      asInterfaceMethodRef_def asFieldRef_def asStringConstant_def asLongConstant_def)

lemma passes_cpAt:
  "passes c name index \<Longrightarrow>
   \<exists>s. cpAt (ConstantPoolItems c) (index - 1) = Inr (utf8String s) \<and> s \<noteq> name"
  by (auto simp: passes_def textAt_lands dest: lands_cpAt split: option.splits)

lemma hasMethodLoop_wrong:
  "list_all (\<lambda>m. passes c name (nameIndex_m m)) pre \<Longrightarrow>
   lands c (nameIndex_m mth) x \<Longrightarrow> \<not> isUtf8String x \<Longrightarrow>
   hasMethodLoop c (pre @ mth # post) name = Inl InterfaceConversion"
proof (induction pre)
  case Nil
  then show ?case by (simp add: bindp_def lands_cpAt as_wrong)
next
  case (Cons p pre)
  from Cons.prems(1) obtain s where
    "cpAt (ConstantPoolItems c) (nameIndex_m p - 1) = Inr (utf8String s)" "s \<noteq> name"
    using passes_cpAt by fastforce
  with Cons show ?case by (simp add: bindp_def as_right)
qed

lemma getFieldLoop_wrong:
  "list_all (\<lambda>f. passes c name (nameIndex f)) pre \<Longrightarrow>
   lands c (nameIndex fld) x \<Longrightarrow> \<not> isUtf8String x \<Longrightarrow>
   getFieldLoop c (pre @ fld # post) name = Inl InterfaceConversion"
proof (induction pre)
  case Nil
  then show ?case by (simp add: bindp_def lands_cpAt as_wrong)
next
  case (Cons p pre)
  from Cons.prems(1) obtain s where
    "cpAt (ConstantPoolItems c) (nameIndex p - 1) = Inr (utf8String s)" "s \<noteq> name"
    using passes_cpAt by fastforce
  with Cons show ?case by (simp add: bindp_def as_right)
qed

lemma resolveLoop_passes:
  assumes "passesBoth c name descriptor p" and "Class_Name c = Inr cn"
  shows "\<exists>acc'. resolveLoop c (p # ms) name descriptor acc = resolveLoop c ms name descriptor acc'"
proof -
  from assms(1) obtain n d where
    n: "textAt c (nameIndex_m p) = Some n" and d: "textAt c (descriptorIndex_m p) = Some d"
    and ne: "n \<noteq> name \<or> d \<noteq> descriptor"
    by (auto simp: passesBoth_def split: option.splits)
  from n d have "cpAt (ConstantPoolItems c) (nameIndex_m p - 1) = Inr (utf8String n)"
    "cpAt (ConstantPoolItems c) (descriptorIndex_m p - 1) = Inr (utf8String d)"
    by (simp_all add: textAt_lands lands_cpAt)
  with ne assms(2) show ?thesis
    by (auto simp: bindp_def as_right Let_def)
qed

lemma resolveLoop_wrong:
  assumes "list_all (passesBoth c name descriptor) pre"
    and "pre = [] \<or> \<not> isl (Class_Name c)"
    and "\<And>acc'. resolveLoop c (mth # post) name descriptor acc' = Inl InterfaceConversion"
  shows "resolveLoop c (pre @ mth # post) name descriptor acc = Inl InterfaceConversion"
  using assms(1,2)
proof (induction pre arbitrary: acc)
  case Nil
  show ?case using assms(3) by simp
next
  case (Cons p pre)
  from Cons.prems(2) obtain cn where cn: "Class_Name c = Inr cn"
    by (cases "Class_Name c") auto
  from Cons.prems(1) have p: "passesBoth c name descriptor p"
    and r: "list_all (passesBoth c name descriptor) pre" by simp_all
  from resolveLoop_passes[OF p cn] obtain acc' where
    "resolveLoop c (p # pre @ mth # post) name descriptor acc =
     resolveLoop c (pre @ mth # post) name descriptor acc'" by blast
  moreover have "resolveLoop c (pre @ mth # post) name descriptor acc' = Inl InterfaceConversion"
    using Cons.IH[OF r] cn by simp
  ultimately show ?case by simp
qed

lemma resolveLoop_name_wrong:
  "lands c (nameIndex_m mth) x \<Longrightarrow> \<not> isUtf8String x \<Longrightarrow>
   resolveLoop c (mth # post) name descriptor acc = Inl InterfaceConversion"
  by (simp add: bindp_def lands_cpAt as_wrong)

lemma resolveLoop_descriptor_wrong:
  "textAt c (nameIndex_m mth) = Some tn \<Longrightarrow> lands c (descriptorIndex_m mth) x \<Longrightarrow>
   \<not> isUtf8String x \<Longrightarrow>
   resolveLoop c (mth # post) name descriptor acc = Inl InterfaceConversion"
  by (simp add: bindp_def textAt_lands lands_cpAt as_wrong as_right)

lemma resolveLoop_class_wrong:
  "textAt c (nameIndex_m mth) = Some tn \<Longrightarrow> textAt c (descriptorIndex_m mth) = Some td \<Longrightarrow>
   Class_Name c = Inl InterfaceConversion \<Longrightarrow>
   resolveLoop c (mth # post) name descriptor acc = Inl InterfaceConversion"
  by (simp add: bindp_def textAt_lands lands_cpAt as_right)

text \<open>
  The decoder follows pool references at four places of its own: the descriptor of a
  method and the name of an attribute in \<^verbatim>\<open>ParseClass\<close>, and the two hops from the catch
  type of an exception handler in \<^verbatim>\<open>parseCode\<close>. They assert the kind the same way.
\<close>

lemma decoder_lookups_panic_on_wrong_kind:
  "(lands c (fst (u2 (snd (u2 (snd (u2 cr)))))) x \<and> \<not> isUtf8String x
      \<longrightarrow> parseMethods c (Suc k) cr = Inl InterfaceConversion)
   \<and> (lands c (fst (u2 cr)) x \<and> \<not> isUtf8String x
      \<longrightarrow> methodAttributes c (Suc k) cr code = Inl InterfaceConversion)
   \<and> (catchType = fst (u2 (snd (u2 (snd (u2 (snd (u2 cr))))))) \<and> catchType \<noteq> 0
        \<and> lands c catchType item \<and> \<not> isClassInfo item
      \<longrightarrow> parseHandlers c (Suc k) cr = Inl InterfaceConversion)
   \<and> (catchType = fst (u2 (snd (u2 (snd (u2 (snd (u2 cr))))))) \<and> catchType \<noteq> 0
        \<and> lands c catchType (classInfo n) \<and> lands c n x \<and> \<not> isUtf8String x
      \<longrightarrow> parseHandlers c (Suc k) cr = Inl InterfaceConversion)"
  by (auto simp: bindp_def lands_cpAt as_wrong as_right split: prod.splits)

lemma sample_simps:
  "ConstantPoolItems firstHopWrong = samplePool" "thisClass firstHopWrong = 1"
  "superClass firstHopWrong = 1" "methods firstHopWrong = [badNameMethod]"
  "fields_c firstHopWrong = [badNameField]"
  "ConstantPoolItems secondHopWrong = samplePool" "thisClass secondHopWrong = 3"
  "superClass secondHopWrong = 3" "methods secondHopWrong = [badDescriptorMethod]"
  "ConstantPoolItems allHopsRight = samplePool" "thisClass allHopsRight = 2"
  "superClass allHopsRight = 2" "methods allHopsRight = [goodMethod, badNameMethod]"
  "fields_c allHopsRight = [goodField, badNameField]"
  "nameIndex_m goodMethod = 1" "descriptorIndex_m goodMethod = 1"
  "nameIndex_m badNameMethod = 2" "descriptorIndex_m badNameMethod = 1"
  "nameIndex_m badDescriptorMethod = 1" "descriptorIndex_m badDescriptorMethod = 2"
  "nameIndex goodField = 1" "nameIndex badNameField = 2"
  by (simp_all add: firstHopWrong_def secondHopWrong_def allHopsRight_def goodMethod_def
      badNameMethod_def badDescriptorMethod_def goodField_def badNameField_def)

lemma decoder_lookups_on_the_samples:
  "parseMethods firstHopWrong 1 \<lparr>reader = [0, 0, 0, 0, 0, 2], err = None\<rparr>
     = Inl InterfaceConversion
   \<and> methodAttributes firstHopWrong 1 \<lparr>reader = [0, 2], err = None\<rparr> zeroCode
     = Inl InterfaceConversion
   \<and> parseHandlers firstHopWrong 1 \<lparr>reader = [0, 0, 0, 0, 0, 0, 0, 1], err = None\<rparr>
     = Inl InterfaceConversion
   \<and> parseHandlers firstHopWrong 1 \<lparr>reader = [0, 0, 0, 0, 0, 0, 0, 3], err = None\<rparr>
     = Inl InterfaceConversion"
  by code_simp

text \<open>
  C2, as the code has it, for every accessor of the source that follows a reference into
  the pool and asserts the kind of the entry. An accessor panics with a failed interface
  conversion as soon as a hop lands on an entry of another kind than the one it asserts;
  none has an error result. When every hop lands on the expected kind it returns what the
  last entry holds.

  \<^item> Two hops through a class info: \<^verbatim>\<open>Class.Name\<close>, \<^verbatim>\<open>Class.getSuperName\<close> and the
    \<^verbatim>\<open>className\<close> of \<^verbatim>\<open>methodRef\<close>, \<^verbatim>\<open>interfaceMethodRef\<close> and \<^verbatim>\<open>fieldRef\<close>.
  \<^item> Two hops through a name and type, to its name: \<^verbatim>\<open>methodRef.methodName\<close>,
    \<^verbatim>\<open>interfaceMethodRef.methodName\<close>, \<^verbatim>\<open>fieldRef.fieldName\<close>; to its descriptor:
    \<^verbatim>\<open>methodRef.methodType\<close>, \<^verbatim>\<open>interfaceMethodRef.methodType\<close>,
    \<^verbatim>\<open>fieldRef.fieldDescriptor\<close>.
  \<^item> Two hops through a string constant: \<^verbatim>\<open>Class.getStringAt\<close>.
  \<^item> One hop to a UTF-8 entry: \<^verbatim>\<open>classInfo.className\<close> and \<^verbatim>\<open>Method.Name\<close>.
  \<^item> One hop with the kind in the name: \<^verbatim>\<open>getMethodRefAt\<close>, \<^verbatim>\<open>getInterfaceMethodRefAt\<close>,
    \<^verbatim>\<open>getFieldRefAt\<close>, \<^verbatim>\<open>getClassInfoAt\<close>, \<^verbatim>\<open>getLongAt\<close>.
  \<^item> One hop for each element of a loop: \<^verbatim>\<open>hasMethodCalled\<close> and \<^verbatim>\<open>getField\<close> panic at the
    first method or field whose name index lands on another kind, when the loop gets
    there; \<^verbatim>\<open>resolveMethod\<close> likewise for the name and the descriptor index, and for the
    hops of \<^verbatim>\<open>Class.Name\<close>, which it calls at every method.

  \<^verbatim>\<open>getConstantPoolItemAt\<close> asserts no kind and is not among them.
\<close>

theorem accessors_panic_on_wrong_kind:
  "(\<forall>(r, i) \<in> set [(Class_Name c, thisClass c), (getSuperName c, superClass c),
        (methodRef_className c ci nti, ci), (interfaceMethodRef_className c ci nti, ci),
        (fieldRef_className c ci nti, ci)].
      (lands c i item \<and> \<not> isClassInfo item \<longrightarrow> r = Inl InterfaceConversion)
      \<and> (lands c i (classInfo n) \<and> lands c n x \<and> \<not> isUtf8String x
          \<longrightarrow> r = Inl InterfaceConversion)
      \<and> (lands c i (classInfo n) \<and> lands c n (utf8String s) \<longrightarrow> r = Inr s))
   \<and> (\<forall>r \<in> set [methodRef_methodName c ci nti, interfaceMethodRef_methodName c ci nti,
        fieldRef_fieldName c ci nti].
      (lands c nti item \<and> \<not> isNameAndType item \<longrightarrow> r = Inl InterfaceConversion)
      \<and> (lands c nti (nameAndType n d) \<and> lands c n x \<and> \<not> isUtf8String x
          \<longrightarrow> r = Inl InterfaceConversion)
      \<and> (lands c nti (nameAndType n d) \<and> lands c n (utf8String s) \<longrightarrow> r = Inr s))
   \<and> (\<forall>r \<in> set [methodRef_methodType c ci nti, interfaceMethodRef_methodType c ci nti,
        fieldRef_fieldDescriptor c ci nti].
      (lands c nti item \<and> \<not> isNameAndType item \<longrightarrow> r = Inl InterfaceConversion)
      \<and> (lands c nti (nameAndType n d) \<and> lands c d x \<and> \<not> isUtf8String x
          \<longrightarrow> r = Inl InterfaceConversion)
      \<and> (lands c nti (nameAndType n d) \<and> lands c d (utf8String s) \<longrightarrow> r = Inr s))
   \<and> (sits c j item \<and> \<not> isStringConstant item \<longrightarrow> getStringAt c j = Inl InterfaceConversion)
   \<and> (sits c j (stringConstant u) \<and> lands c u x \<and> \<not> isUtf8String x
        \<longrightarrow> getStringAt c j = Inl InterfaceConversion)
   \<and> (sits c j (stringConstant u) \<and> lands c u (utf8String s) \<longrightarrow> getStringAt c j = Inr s)
   \<and> (\<forall>(r, i) \<in> set [(classInfo_className c k, k), (Method_Name c m, nameIndex_m m)].
      (lands c i x \<and> \<not> isUtf8String x \<longrightarrow> r = Inl InterfaceConversion)
      \<and> (lands c i (utf8String s) \<longrightarrow> r = Inr s))
   \<and> (lands c im item \<and> \<not> isMethodRef item \<longrightarrow> getMethodRefAt c im = Inl InterfaceConversion)
   \<and> (lands c im (methodRef a b) \<longrightarrow> getMethodRefAt c im = Inr (a, b))
   \<and> (lands c ii item \<and> \<not> isInterfaceMethodRef item
        \<longrightarrow> getInterfaceMethodRefAt c ii = Inl InterfaceConversion)
   \<and> (lands c ii (interfaceMethodRef a b) \<longrightarrow> getInterfaceMethodRefAt c ii = Inr (a, b))
   \<and> (lands c ifr item \<and> \<not> isFieldRef item \<longrightarrow> getFieldRefAt c ifr = Inl InterfaceConversion)
   \<and> (lands c ifr (fieldRef a b) \<longrightarrow> getFieldRefAt c ifr = Inr (a, b))
   \<and> (lands c ic item \<and> \<not> isClassInfo item \<longrightarrow> getClassInfoAt c ic = Inl InterfaceConversion)
   \<and> (lands c ic (classInfo n) \<longrightarrow> getClassInfoAt c ic = Inr n)
   \<and> (sits c jl item \<and> \<not> isLongConstant item \<longrightarrow> getLongAt c jl = Inl InterfaceConversion)
   \<and> (sits c jl (longConstant v) \<longrightarrow> getLongAt c jl = Inr v)
   \<and> (methods c = pre @ mth # post \<and> list_all (\<lambda>p. passes c name (nameIndex_m p)) pre
        \<and> lands c (nameIndex_m mth) x \<and> \<not> isUtf8String x
        \<longrightarrow> hasMethodCalled c name = Inl InterfaceConversion)
   \<and> (fields_c c = fpre @ fld # fpost \<and> list_all (\<lambda>p. passes c name (nameIndex p)) fpre
        \<and> lands c (nameIndex fld) x \<and> \<not> isUtf8String x
        \<longrightarrow> getField c name = Inl InterfaceConversion)
   \<and> (methods c = pre @ mth # post \<and> list_all (passesBoth c name descriptor) pre
        \<and> (pre = [] \<or> \<not> isl (Class_Name c))
        \<and> lands c (nameIndex_m mth) x \<and> \<not> isUtf8String x
        \<longrightarrow> resolveMethod c name descriptor = Inl InterfaceConversion)
   \<and> (methods c = pre @ mth # post \<and> list_all (passesBoth c name descriptor) pre
        \<and> (pre = [] \<or> \<not> isl (Class_Name c))
        \<and> textAt c (nameIndex_m mth) = Some tn
        \<and> lands c (descriptorIndex_m mth) x \<and> \<not> isUtf8String x
        \<longrightarrow> resolveMethod c name descriptor = Inl InterfaceConversion)
   \<and> (methods c = mth # post \<and> textAt c (nameIndex_m mth) = Some tn
        \<and> textAt c (descriptorIndex_m mth) = Some td
        \<and> Class_Name c = Inl InterfaceConversion
        \<longrightarrow> resolveMethod c name descriptor = Inl InterfaceConversion)"
proof -
  have class_family:
    "\<forall>(r, i) \<in> set [(Class_Name c, thisClass c), (getSuperName c, superClass c),
        (methodRef_className c ci nti, ci), (interfaceMethodRef_className c ci nti, ci),
        (fieldRef_className c ci nti, ci)].
      (lands c i item \<and> \<not> isClassInfo item \<longrightarrow> r = Inl InterfaceConversion)
      \<and> (lands c i (classInfo n) \<and> lands c n x \<and> \<not> isUtf8String x
          \<longrightarrow> r = Inl InterfaceConversion)
      \<and> (lands c i (classInfo n) \<and> lands c n (utf8String s) \<longrightarrow> r = Inr s)"
    by (auto simp: Class_Name_def getSuperName_def methodRef_className_def
        interfaceMethodRef_className_def fieldRef_className_def bindp_def lands_cpAt
        as_wrong as_right)
  have name_family:
    "\<forall>r \<in> set [methodRef_methodName c ci nti, interfaceMethodRef_methodName c ci nti,
        fieldRef_fieldName c ci nti].
      (lands c nti item \<and> \<not> isNameAndType item \<longrightarrow> r = Inl InterfaceConversion)
      \<and> (lands c nti (nameAndType n d) \<and> lands c n x \<and> \<not> isUtf8String x
          \<longrightarrow> r = Inl InterfaceConversion)
      \<and> (lands c nti (nameAndType n d) \<and> lands c n (utf8String s) \<longrightarrow> r = Inr s)"
    by (auto simp: methodRef_methodName_def interfaceMethodRef_methodName_def
        fieldRef_fieldName_def bindp_def lands_cpAt as_wrong as_right)
  have type_family:
    "\<forall>r \<in> set [methodRef_methodType c ci nti, interfaceMethodRef_methodType c ci nti,
        fieldRef_fieldDescriptor c ci nti].
      (lands c nti item \<and> \<not> isNameAndType item \<longrightarrow> r = Inl InterfaceConversion)
      \<and> (lands c nti (nameAndType n d) \<and> lands c d x \<and> \<not> isUtf8String x
          \<longrightarrow> r = Inl InterfaceConversion)
      \<and> (lands c nti (nameAndType n d) \<and> lands c d (utf8String s) \<longrightarrow> r = Inr s)"
    by (auto simp: methodRef_methodType_def interfaceMethodRef_methodType_def
        fieldRef_fieldDescriptor_def bindp_def lands_cpAt as_wrong as_right)
  have string_at:
    "(sits c j item \<and> \<not> isStringConstant item \<longrightarrow> getStringAt c j = Inl InterfaceConversion)
     \<and> (sits c j (stringConstant u) \<and> lands c u x \<and> \<not> isUtf8String x
        \<longrightarrow> getStringAt c j = Inl InterfaceConversion)
     \<and> (sits c j (stringConstant u) \<and> lands c u (utf8String s) \<longrightarrow> getStringAt c j = Inr s)"
    by (auto simp: getStringAt_def bindp_def sits_cpAtInt lands_cpAt as_wrong as_right)
  have text_family:
    "\<forall>(r, i) \<in> set [(classInfo_className c k, k), (Method_Name c m, nameIndex_m m)].
      (lands c i x \<and> \<not> isUtf8String x \<longrightarrow> r = Inl InterfaceConversion)
      \<and> (lands c i (utf8String s) \<longrightarrow> r = Inr s)"
    by (auto simp: classInfo_className_def Method_Name_def bindp_def lands_cpAt as_wrong
        as_right)
  have getters:
    "(lands c im item \<and> \<not> isMethodRef item \<longrightarrow> getMethodRefAt c im = Inl InterfaceConversion)
     \<and> (lands c im (methodRef a b) \<longrightarrow> getMethodRefAt c im = Inr (a, b))
     \<and> (lands c ii item \<and> \<not> isInterfaceMethodRef item
        \<longrightarrow> getInterfaceMethodRefAt c ii = Inl InterfaceConversion)
     \<and> (lands c ii (interfaceMethodRef a b) \<longrightarrow> getInterfaceMethodRefAt c ii = Inr (a, b))
     \<and> (lands c ifr item \<and> \<not> isFieldRef item \<longrightarrow> getFieldRefAt c ifr = Inl InterfaceConversion)
     \<and> (lands c ifr (fieldRef a b) \<longrightarrow> getFieldRefAt c ifr = Inr (a, b))
     \<and> (lands c ic item \<and> \<not> isClassInfo item \<longrightarrow> getClassInfoAt c ic = Inl InterfaceConversion)
     \<and> (lands c ic (classInfo n) \<longrightarrow> getClassInfoAt c ic = Inr n)
     \<and> (sits c jl item \<and> \<not> isLongConstant item \<longrightarrow> getLongAt c jl = Inl InterfaceConversion)
     \<and> (sits c jl (longConstant v) \<longrightarrow> getLongAt c jl = Inr v)"
    by (auto simp: getMethodRefAt_def getInterfaceMethodRefAt_def getFieldRefAt_def
        getClassInfoAt_def getLongAt_def bindp_def sits_cpAtInt lands_cpAt as_wrong as_right)
  have loops:
    "(methods c = pre @ mth # post \<and> list_all (\<lambda>p. passes c name (nameIndex_m p)) pre
        \<and> lands c (nameIndex_m mth) x \<and> \<not> isUtf8String x
        \<longrightarrow> hasMethodCalled c name = Inl InterfaceConversion)
     \<and> (fields_c c = fpre @ fld # fpost \<and> list_all (\<lambda>p. passes c name (nameIndex p)) fpre
        \<and> lands c (nameIndex fld) x \<and> \<not> isUtf8String x
        \<longrightarrow> getField c name = Inl InterfaceConversion)"
    by (auto simp: hasMethodCalled_def getField_def hasMethodLoop_wrong getFieldLoop_wrong)
  have resolve:
    "(methods c = pre @ mth # post \<and> list_all (passesBoth c name descriptor) pre
        \<and> (pre = [] \<or> \<not> isl (Class_Name c))
        \<and> lands c (nameIndex_m mth) x \<and> \<not> isUtf8String x
        \<longrightarrow> resolveMethod c name descriptor = Inl InterfaceConversion)
     \<and> (methods c = pre @ mth # post \<and> list_all (passesBoth c name descriptor) pre
        \<and> (pre = [] \<or> \<not> isl (Class_Name c))
        \<and> textAt c (nameIndex_m mth) = Some tn
        \<and> lands c (descriptorIndex_m mth) x \<and> \<not> isUtf8String x
        \<longrightarrow> resolveMethod c name descriptor = Inl InterfaceConversion)
     \<and> (methods c = mth # post \<and> textAt c (nameIndex_m mth) = Some tn
        \<and> textAt c (descriptorIndex_m mth) = Some td
        \<and> Class_Name c = Inl InterfaceConversion
        \<longrightarrow> resolveMethod c name descriptor = Inl InterfaceConversion)"
    unfolding resolveMethod_def
    by (intro conjI impI; elim conjE)
       (simp only:, rule resolveLoop_wrong, assumption, assumption,
        rule resolveLoop_name_wrong, assumption, assumption,
        simp only:, rule resolveLoop_wrong, assumption, assumption,
        rule resolveLoop_descriptor_wrong, assumption, assumption, assumption,
        simp only:, rule resolveLoop_class_wrong, assumption, assumption, assumption)
  show ?thesis
    by (intro conjI; insert class_family name_family type_family string_at text_family
        getters loops resolve; elim conjE; assumption)
qed

text \<open>
  The theorem on the three sample classes: every accessor with a first hop of the wrong
  kind, with a second hop of the wrong kind, and with every hop right; the loops with
  the bad element first and behind one that passes; and \<^verbatim>\<open>resolveMethod\<close> on a class
  whose only method is sound and whose own name is not.
\<close>

theorem accessors_panic_on_wrong_kind_witness:
  "list_all (\<lambda>r. r = Inl InterfaceConversion)
     [Class_Name firstHopWrong, getSuperName firstHopWrong,
      methodRef_className firstHopWrong 1 1, interfaceMethodRef_className firstHopWrong 1 1,
      fieldRef_className firstHopWrong 1 1, methodRef_methodName firstHopWrong 1 1,
      interfaceMethodRef_methodName firstHopWrong 1 1, fieldRef_fieldName firstHopWrong 1 1,
      methodRef_methodType firstHopWrong 1 1, interfaceMethodRef_methodType firstHopWrong 1 1,
      fieldRef_fieldDescriptor firstHopWrong 1 1, getStringAt firstHopWrong 0,
      classInfo_className firstHopWrong 2, Method_Name firstHopWrong badNameMethod]
   \<and> getMethodRefAt firstHopWrong 1 = Inl InterfaceConversion
   \<and> getInterfaceMethodRefAt firstHopWrong 1 = Inl InterfaceConversion
   \<and> getFieldRefAt firstHopWrong 1 = Inl InterfaceConversion
   \<and> getClassInfoAt firstHopWrong 1 = Inl InterfaceConversion
   \<and> getLongAt firstHopWrong 0 = Inl InterfaceConversion
   \<and> hasMethodCalled firstHopWrong ''bar'' = Inl InterfaceConversion
   \<and> getField firstHopWrong ''bar'' = Inl InterfaceConversion
   \<and> resolveMethod firstHopWrong ''bar'' ''()V'' = Inl InterfaceConversion
   \<and> list_all (\<lambda>r. r = Inl InterfaceConversion)
     [Class_Name secondHopWrong, getSuperName secondHopWrong,
      methodRef_className secondHopWrong 3 5, interfaceMethodRef_className secondHopWrong 3 5,
      fieldRef_className secondHopWrong 3 5, methodRef_methodName secondHopWrong 3 5,
      interfaceMethodRef_methodName secondHopWrong 3 5, fieldRef_fieldName secondHopWrong 3 5,
      methodRef_methodType secondHopWrong 3 5, interfaceMethodRef_methodType secondHopWrong 3 5,
      fieldRef_fieldDescriptor secondHopWrong 3 5, getStringAt secondHopWrong 9]
   \<and> resolveMethod secondHopWrong ''bar'' ''()V'' = Inl InterfaceConversion
   \<and> list_all (\<lambda>r. r = Inr ''Foo'')
     [Class_Name allHopsRight, getSuperName allHopsRight,
      methodRef_className allHopsRight 2 4, interfaceMethodRef_className allHopsRight 2 4,
      fieldRef_className allHopsRight 2 4, methodRef_methodName allHopsRight 2 4,
      interfaceMethodRef_methodName allHopsRight 2 4, fieldRef_fieldName allHopsRight 2 4,
      methodRef_methodType allHopsRight 2 4, interfaceMethodRef_methodType allHopsRight 2 4,
      fieldRef_fieldDescriptor allHopsRight 2 4, getStringAt allHopsRight 8,
      classInfo_className allHopsRight 1, Method_Name allHopsRight goodMethod]
   \<and> getMethodRefAt allHopsRight 6 = Inr (2, 4)
   \<and> getInterfaceMethodRefAt allHopsRight 7 = Inr (2, 4)
   \<and> getFieldRefAt allHopsRight 8 = Inr (2, 4)
   \<and> getClassInfoAt allHopsRight 2 = Inr 1
   \<and> getLongAt allHopsRight 10 = Inr 7
   \<and> hasMethodCalled allHopsRight ''bar'' = Inl InterfaceConversion
   \<and> getField allHopsRight ''bar'' = Inl InterfaceConversion
   \<and> resolveMethod allHopsRight ''bar'' ''()V'' = Inl InterfaceConversion
   \<and> resolveMethod (firstHopWrong\<lparr>methods := [goodMethod]\<rparr>) ''bar'' ''()V''
       = Inl InterfaceConversion"
proof -
  note defs = lands_def sits_def textAt_def passes_def passesBoth_def sample_simps
    samplePool_def isClassInfo_def isUtf8String_def isNameAndType_def isMethodRef_def
    isInterfaceMethodRef_def isFieldRef_def isStringConstant_def isLongConstant_def
  note first = accessors_panic_on_wrong_kind[where c = firstHopWrong and ci = 1 and nti = 1
      and item = "utf8String ''Foo''" and x = "classInfo 1" and n = 1 and d = 1
      and s = "''Foo''" and j = 0 and u = 1 and k = 2 and m = badNameMethod and im = 1
      and ii = 1 and ifr = 1 and ic = 1 and a = 2 and b = 4 and jl = 0 and v = 7
      and pre = "[]" and mth = badNameMethod and post = "[]" and fpre = "[]"
      and fld = badNameField and fpost = "[]" and name = "''bar''"
      and descriptor = "''()V''" and tn = "''Foo''" and td = "''Foo''"]
  note second = accessors_panic_on_wrong_kind[where c = secondHopWrong and ci = 3 and nti = 5
      and item = "classInfo 1" and x = "classInfo 1" and n = 2 and d = 2
      and s = "''Foo''" and j = 9 and u = 2 and k = 2 and m = badNameMethod and im = 1
      and ii = 1 and ifr = 1 and ic = 1 and a = 2 and b = 4 and jl = 0 and v = 7
      and pre = "[]" and mth = badDescriptorMethod and post = "[]" and fpre = "[]"
      and fld = badNameField and fpost = "[]" and name = "''bar''"
      and descriptor = "''()V''" and tn = "''Foo''" and td = "''Foo''"]
  note right = accessors_panic_on_wrong_kind[where c = allHopsRight and ci = 2 and nti = 4
      and item = "classInfo 1" and x = "classInfo 1" and n = 1 and d = 1
      and s = "''Foo''" and j = 8 and u = 1 and k = 1 and m = goodMethod and im = 6
      and ii = 7 and ifr = 8 and ic = 2 and a = 2 and b = 4 and jl = 10 and v = 7
      and pre = "[goodMethod]" and mth = badNameMethod and post = "[]"
      and fpre = "[goodField]" and fld = badNameField and fpost = "[]"
      and name = "''bar''" and descriptor = "''()V''" and tn = "''Foo''" and td = "''Foo''"]
  note own = accessors_panic_on_wrong_kind[where c = "firstHopWrong\<lparr>methods := [goodMethod]\<rparr>"
      and ci = 1 and nti = 1
      and item = "utf8String ''Foo''" and x = "classInfo 1" and n = 1 and d = 1
      and s = "''Foo''" and j = 0 and u = 1 and k = 2 and m = badNameMethod and im = 1
      and ii = 1 and ifr = 1 and ic = 1 and a = 2 and b = 4 and jl = 0 and v = 7
      and pre = "[]" and mth = goodMethod and post = "[]" and fpre = "[]"
      and fld = badNameField and fpost = "[]" and name = "''bar''"
      and descriptor = "''()V''" and tn = "''Foo''" and td = "''Foo''"]
  have 1: "list_all (\<lambda>r. r = Inl InterfaceConversion)
     [Class_Name firstHopWrong, getSuperName firstHopWrong,
      methodRef_className firstHopWrong 1 1, interfaceMethodRef_className firstHopWrong 1 1,
      fieldRef_className firstHopWrong 1 1, methodRef_methodName firstHopWrong 1 1,
      interfaceMethodRef_methodName firstHopWrong 1 1, fieldRef_fieldName firstHopWrong 1 1,
      methodRef_methodType firstHopWrong 1 1, interfaceMethodRef_methodType firstHopWrong 1 1,
      fieldRef_fieldDescriptor firstHopWrong 1 1, getStringAt firstHopWrong 0,
      classInfo_className firstHopWrong 2, Method_Name firstHopWrong badNameMethod]
   \<and> getMethodRefAt firstHopWrong 1 = Inl InterfaceConversion
   \<and> getInterfaceMethodRefAt firstHopWrong 1 = Inl InterfaceConversion
   \<and> getFieldRefAt firstHopWrong 1 = Inl InterfaceConversion
   \<and> getClassInfoAt firstHopWrong 1 = Inl InterfaceConversion
   \<and> getLongAt firstHopWrong 0 = Inl InterfaceConversion
   \<and> hasMethodCalled firstHopWrong ''bar'' = Inl InterfaceConversion
   \<and> getField firstHopWrong ''bar'' = Inl InterfaceConversion
   \<and> resolveMethod firstHopWrong ''bar'' ''()V'' = Inl InterfaceConversion"
    using first by (simp add: defs)
  have 2: "list_all (\<lambda>r. r = Inl InterfaceConversion)
     [Class_Name secondHopWrong, getSuperName secondHopWrong,
      methodRef_className secondHopWrong 3 5, interfaceMethodRef_className secondHopWrong 3 5,
      fieldRef_className secondHopWrong 3 5, methodRef_methodName secondHopWrong 3 5,
      interfaceMethodRef_methodName secondHopWrong 3 5, fieldRef_fieldName secondHopWrong 3 5,
      methodRef_methodType secondHopWrong 3 5, interfaceMethodRef_methodType secondHopWrong 3 5,
      fieldRef_fieldDescriptor secondHopWrong 3 5, getStringAt secondHopWrong 9]
   \<and> resolveMethod secondHopWrong ''bar'' ''()V'' = Inl InterfaceConversion"
    using second by (simp add: defs)
  have name: "Class_Name allHopsRight = Inr ''Foo''"
    using right by (simp add: defs)
  have 3: "list_all (\<lambda>r. r = Inr ''Foo'')
     [Class_Name allHopsRight, getSuperName allHopsRight,
      methodRef_className allHopsRight 2 4, interfaceMethodRef_className allHopsRight 2 4,
      fieldRef_className allHopsRight 2 4, methodRef_methodName allHopsRight 2 4,
      interfaceMethodRef_methodName allHopsRight 2 4, fieldRef_fieldName allHopsRight 2 4,
      methodRef_methodType allHopsRight 2 4, interfaceMethodRef_methodType allHopsRight 2 4,
      fieldRef_fieldDescriptor allHopsRight 2 4, getStringAt allHopsRight 8,
      classInfo_className allHopsRight 1, Method_Name allHopsRight goodMethod]
   \<and> getMethodRefAt allHopsRight 6 = Inr (2, 4)
   \<and> getInterfaceMethodRefAt allHopsRight 7 = Inr (2, 4)
   \<and> getFieldRefAt allHopsRight 8 = Inr (2, 4)
   \<and> getClassInfoAt allHopsRight 2 = Inr 1
   \<and> getLongAt allHopsRight 10 = Inr 7
   \<and> hasMethodCalled allHopsRight ''bar'' = Inl InterfaceConversion
   \<and> getField allHopsRight ''bar'' = Inl InterfaceConversion
   \<and> resolveMethod allHopsRight ''bar'' ''()V'' = Inl InterfaceConversion"
    using right name by (simp add: defs)
  have own_name: "Class_Name (firstHopWrong\<lparr>methods := [goodMethod]\<rparr>) = Inl InterfaceConversion"
    using own by (simp add: defs)
  have 4: "resolveMethod (firstHopWrong\<lparr>methods := [goodMethod]\<rparr>) ''bar'' ''()V''
       = Inl InterfaceConversion"
    using own own_name by (simp add: defs)
  from 1 2 3 4 show ?thesis by (simp only: simp_thms)
qed

text \<open>
  C2 as the specification states it asks for a result the caller can recover from and no
  crash. In \<open>firstHopWrong\<close> the reference \<^verbatim>\<open>thisClass\<close> lands on a UTF-8 entry, and
  \<^verbatim>\<open>Name\<close> panics.
\<close>

theorem accessor_crash_counterexample:
  "lands firstHopWrong (thisClass firstHopWrong) (utf8String ''Foo'')
   \<and> Class_Name firstHopWrong = Inl InterfaceConversion"
  by (simp add: lands_def sample_simps samplePool_def Class_Name_def cpAt_def bindp_def
      asClassInfo_def)

section \<open>The slot after a long or a double (C7)\<close>

lemma cpItem_slot:
  assumes "cpItem i parser next g = (Some item, parser', next', g', i')"
  shows "entryNumber item = Some (i + 1) \<and> i' = (if wideEntry item then i + 1 else i)"
  using assms
  by (auto simp: cpItem_def Let_def leaf_def nextId_def entryNumber_def wideEntry_def
      split: prod.splits if_splits)

lemma cpLoop_slots:
  "cpLoop n i parser next g children = (cs, next', g') \<Longrightarrow>
   \<exists>items. cs = children @ items \<and> slots (i + 1) items"
proof (induction n i parser "next" g children rule: cpLoop.induct)
  case (1 n i parser nxt g children)
  show ?case
  proof (cases "i < n")
    case False
    with "1.prems" show ?thesis by simp
  next
    case True
    obtain it p1 n1 g1 i1 where it: "cpItem i parser nxt g = (it, p1, n1, g1, i1)"
      by (metis prod_cases5)
    show ?thesis
    proof (cases it)
      case None
      with it True "1.prems" show ?thesis by simp
    next
      case (Some item)
      from it Some have s: "cpItem i parser nxt g = (Some item, p1, n1, g1, i1)" by simp
      have r: "cpLoop n (i1 + 1) p1 n1 g1 (children @ [item]) = (cs, next', g')"
        using "1.prems"(1) True s by simp
      from "1.IH"[OF True s[symmetric] refl refl refl refl r]
      obtain items where i: "cs = (children @ [item]) @ items" "slots (i1 + 1 + 1) items"
        by blast
      from cpItem_slot[OF s] i(2) have "slots (i + 1) (item # items)"
        by (auto simp: ac_simps split: if_splits)
      with i(1) show ?thesis by auto
    qed
  qed
qed

lemma parseConstantPool_slots:
  assumes "parseConstantPool bytes index g = Inr (next, Some sec, g')"
  shows "slots 1 (tl (Children sec))"
proof -
  from assms obtain parser where p: "newByteParser bytes index = Inr parser"
    by (auto simp: parseConstantPool_def bindp_def split: sum.splits)
  obtain c p1 where c: "u2 parser = (c, p1)" by (cases "u2 parser")
  define cnt where "cnt = leaf g index (index + 2) (Sprintf ''constant pool count: %d'' [U16 c])"
  obtain cs n1 g1 where lp: "cpLoop (uint (c - 1)) 0 p1 (index + 2) (g + 1) [cnt] = (cs, n1, g1)"
    by (metis prod_cases3)
  from assms p c lp have "Children sec = cs"
    by (auto simp: parseConstantPool_def bindp_def nextId_def cnt_def)
  with cpLoop_slots[OF lp] show ?thesis by auto
qed

text \<open>
  C7, as the code has it. In the provenance pass the entries of the constant pool are
  numbered from 1 and the entry after a long or a double is numbered two higher: the slot
  in between has no section. In the model pass \<^verbatim>\<open>getConstantPoolItemAt\<close> checks no kind: a
  reference that lands on an item returns that item, whatever it is, and on a class that
  \<^verbatim>\<open>ParseClass\<close> returned every reference panics with an index out of range, the pool
  being empty.
\<close>

theorem wide_entry_takes_two_slots:
  "(parseConstantPool bytes index g = Inr (next, Some sec, g') \<longrightarrow> slots 1 (tl (Children sec)))
   \<and> (lands c i item \<longrightarrow> getConstantPoolItemAt c i = Inr item)
   \<and> (ParseClass r = Inr (c', e) \<longrightarrow> getConstantPoolItemAt c' i = Inl IndexOutOfRange)"
proof (intro conjI impI)
  assume "parseConstantPool bytes index g = Inr (next, Some sec, g')"
  then show "slots 1 (tl (Children sec))" by (rule parseConstantPool_slots)
next
  assume "lands c i item"
  then show "getConstantPoolItemAt c i = Inr item"
    by (simp add: getConstantPoolItemAt_def lands_def cpAt_def)
next
  assume "ParseClass r = Inr (c', e)"
  then show "getConstantPoolItemAt c' i = Inl IndexOutOfRange"
    by (simp add: getConstantPoolItemAt_def ParseClass_Inr cpAt_Nil)
qed

text \<open>
  The theorem on the constant pool of \<open>sampleClass\<close> (a long numbered 1, then a string
  numbered 3), on \<open>widePoolClass\<close> and on the class decoded from \<open>fieldOnlyClass\<close>.
\<close>

theorem wide_entry_takes_two_slots_witness:
  "(\<exists>next sec g'. parseConstantPool sampleClass 8 4 = Inr (next, Some sec, g')
       \<and> slots 1 (tl (Children sec))
       \<and> map entryNumber (tl (Children sec)) = [Some 1, Some 3])
   \<and> getConstantPoolItemAt widePoolClass 3 = Inr (utf8String ''Hi'')
   \<and> (\<exists>c e. ParseClass fieldOnlyClass = Inr (c, e)
       \<and> getConstantPoolItemAt c 1 = Inl IndexOutOfRange)"
proof -
  have "case parseConstantPool sampleClass 8 4 of
          Inr (next, Some sec, g') \<Rightarrow> map entryNumber (tl (Children sec)) = [Some 1, Some 3]
        | _ \<Rightarrow> False"
    by code_simp
  then obtain "next" sec g' where
    p: "parseConstantPool sampleClass 8 4 = Inr (next, Some sec, g')"
    and n: "map entryNumber (tl (Children sec)) = [Some 1, Some 3]"
    by (auto split: sum.splits option.splits)
  have 1: "slots 1 (tl (Children sec))"
    using wide_entry_takes_two_slots[where bytes = sampleClass and index = 8 and g = 4] p
    by blast
  have "lands widePoolClass 3 (utf8String ''Hi'')"
    by (simp add: lands_def widePoolClass_def)
  then have 2: "getConstantPoolItemAt widePoolClass 3 = Inr (utf8String ''Hi'')"
    using wide_entry_takes_two_slots[where c = widePoolClass and i = 3] by blast
  have "case ParseClass fieldOnlyClass of Inl p \<Rightarrow> False | Inr r \<Rightarrow> True"
    by code_simp
  then obtain c e where s: "ParseClass fieldOnlyClass = Inr (c, e)"
    by (cases "ParseClass fieldOnlyClass") auto
  then have 3: "getConstantPoolItemAt c 1 = Inl IndexOutOfRange"
    using wide_entry_takes_two_slots[where r = fieldOnlyClass and i = 1] by blast
  have a: "\<exists>next sec g'. parseConstantPool sampleClass 8 4 = Inr (next, Some sec, g')
       \<and> slots 1 (tl (Children sec))
       \<and> map entryNumber (tl (Children sec)) = [Some 1, Some 3]"
    using p n 1 by (intro exI conjI)
  have b: "\<exists>c e. ParseClass fieldOnlyClass = Inr (c, e)
       \<and> getConstantPoolItemAt c 1 = Inl IndexOutOfRange"
    using s 3 by (intro exI conjI)
  show ?thesis by (intro conjI a 2 b)
qed

text \<open>
  C7 as the specification states it asks that a reference to the slot after a long is
  reported as a malformed cross-reference. In \<open>widePoolClass\<close> the long is at index 1 and
  a reference to index 2 returns the placeholder stored there, with no error; on the
  class decoded from \<open>sampleClass\<close>, whose pool has a long at index 1, the reference
  panics.
\<close>

theorem wide_slot_reference_counterexample:
  "getConstantPoolItemAt widePoolClass 2 = Inr WideConstantPart2
   \<and> bindp (ParseClass sampleClass) (\<lambda>(c, e). getConstantPoolItemAt c 2) = Inl IndexOutOfRange"
  by code_simp

section \<open>Descriptors with an unknown character (C8)\<close>

lemma sigLoop_unrecognized:
  "unrecognized className cs \<Longrightarrow> sigLoop className cs s sig = Inl (cantParse sig)"
  by (induction className cs arbitrary: s rule: unrecognized.induct)
     (auto simp: cantParse_def split: if_splits)

lemma sigLoop_recognized:
  "\<not> unrecognized className cs \<Longrightarrow> \<exists>s'. sigLoop className cs s sig = Inr s'"
  by (induction className cs arbitrary: s rule: unrecognized.induct)
     (auto split: if_splits)

lemma parseSigniture_Inr: "parseSigniture sig = Inr s \<Longrightarrow> \<not> unrecognized False sig"
  using sigLoop_unrecognized[of False sig "[]" sig] by (auto simp: parseSigniture_def)

lemma parseMethods_recognized:
  "parseMethods c n cr = Inr (ms, cr') \<Longrightarrow>
   list_all (\<lambda>m. \<not> unrecognized False (RawSigniture m)) ms"
proof (induction n arbitrary: cr ms cr')
  case 0
  then show ?case by simp
next
  case (Suc n)
  from Suc.prems obtain sig s m cr1 ms' where
    a: "parseSigniture sig = Inr s" "parseMethods c n cr1 = Inr (ms', cr')"
       "ms = m # ms'" "RawSigniture m = sig"
    by (auto simp: bindp_def Let_def split: prod.splits sum.splits)
  from Suc.IH[OF a(2)] parseSigniture_Inr[OF a(1)] a(3,4) show ?case by simp
qed

text \<open>
  C8, as the code has it. \<^verbatim>\<open>parseSigniture\<close> panics (\<^verbatim>\<open>log.Panicf\<close>) exactly when the
  descriptor has a character it does not know outside a class name, and returns the
  markers otherwise. Nothing recovers from the panic: a method whose descriptor resolves
  to such a string makes the loop over the methods panic, and when the loop returns, every
  method in its result has a descriptor without such a character.
\<close>

theorem parseSigniture_panics:
  "(unrecognized False sig \<longrightarrow> parseSigniture sig = Inl (cantParse sig))
   \<and> (\<not> unrecognized False sig \<longrightarrow> (\<exists>s. parseSigniture sig = Inr s))
   \<and> (unrecognized False sig \<and> lands c (fst (u2 (snd (u2 (snd (u2 cr)))))) (utf8String sig)
        \<longrightarrow> parseMethods c (Suc k) cr = Inl (cantParse sig))
   \<and> (parseMethods c n cr = Inr (ms, cr')
        \<longrightarrow> list_all (\<lambda>m. \<not> unrecognized False (RawSigniture m)) ms)"
proof (intro conjI impI)
  assume "unrecognized False sig"
  then show "parseSigniture sig = Inl (cantParse sig)"
    by (simp add: parseSigniture_def sigLoop_unrecognized)
next
  assume "\<not> unrecognized False sig"
  then show "\<exists>s. parseSigniture sig = Inr s"
    by (simp add: parseSigniture_def sigLoop_recognized)
next
  assume a: "unrecognized False sig \<and> lands c (fst (u2 (snd (u2 (snd (u2 cr)))))) (utf8String sig)"
  then have "parseSigniture sig = Inl (cantParse sig)"
    by (simp add: parseSigniture_def sigLoop_unrecognized)
  with a show "parseMethods c (Suc k) cr = Inl (cantParse sig)"
    by (auto simp: bindp_def Let_def asUtf8String_def dest!: lands_cpAt split: prod.splits)
next
  assume "parseMethods c n cr = Inr (ms, cr')"
  then show "list_all (\<lambda>m. \<not> unrecognized False (RawSigniture m)) ms"
    by (rule parseMethods_recognized)
qed

text \<open>
  The theorem on the descriptors \<open>(X)V\<close> and \<open>(I)V\<close>, on the two methods of \<open>twoMethods\<close>
  in \<open>badSigClass\<close>, and on the same bytes with \<open>(I)V\<close> in place of \<open>(X)V\<close>.
\<close>

theorem parseSigniture_panics_witness:
  "parseSigniture ''(X)V'' = Inl (cantParse ''(X)V'')
   \<and> (\<exists>s. parseSigniture ''(I)V'' = Inr s)
   \<and> parseMethods badSigClass (Suc 1) twoMethods = Inl (cantParse ''(X)V'')
   \<and> (\<exists>ms cr'. parseMethods
          (badSigClass\<lparr>ConstantPoolItems := [utf8String ''(I)V'', utf8String ''()V'']\<rparr>)
          2 twoMethods = Inr (ms, cr')
        \<and> list_all (\<lambda>m. \<not> unrecognized False (RawSigniture m)) ms)"
proof -
  have u: "unrecognized False ''(X)V''" "\<not> unrecognized False ''(I)V''"
    by simp_all
  have 1: "parseSigniture ''(X)V'' = Inl (cantParse ''(X)V'')"
    using parseSigniture_panics[where sig = "''(X)V''"] u(1) by blast
  have 2: "\<exists>s. parseSigniture ''(I)V'' = Inr s"
    using parseSigniture_panics[where sig = "''(I)V''"] u(2) by blast
  have "lands badSigClass (fst (u2 (snd (u2 (snd (u2 twoMethods)))))) (utf8String ''(X)V'')"
    by code_simp
  then have 3: "parseMethods badSigClass (Suc 1) twoMethods = Inl (cantParse ''(X)V'')"
    using parseSigniture_panics[where sig = "''(X)V''" and c = badSigClass
        and cr = twoMethods and k = 1] u(1) by blast
  let ?c = "badSigClass\<lparr>ConstantPoolItems := [utf8String ''(I)V'', utf8String ''()V'']\<rparr>"
  have "case parseMethods ?c 2 twoMethods of Inl p \<Rightarrow> False | Inr r \<Rightarrow> True"
    by code_simp
  then obtain ms cr' where m: "parseMethods ?c 2 twoMethods = Inr (ms, cr')"
    by (cases "parseMethods ?c 2 twoMethods") auto
  then have 4: "list_all (\<lambda>m. \<not> unrecognized False (RawSigniture m)) ms"
    using parseSigniture_panics[where c = ?c and n = 2 and cr = twoMethods] by blast
  from 1 2 3 m 4 show ?thesis by blast
qed

text \<open>
  C8 as the specification states it asks for an error of that one method and a decode
  that goes on. The descriptor \<open>(X)V\<close> makes \<^verbatim>\<open>parseSigniture\<close> panic, and the loop over
  the two methods of \<open>twoMethods\<close> ends with that panic: the second method, whose
  descriptor is good, is not decoded.
\<close>

theorem malformed_descriptor_aborts_counterexample:
  "parseSigniture ''(X)V'' = Inl (cantParse ''(X)V'')
   \<and> parseMethods badSigClass 2 twoMethods = Inl (cantParse ''(X)V'')"
  by code_simp

section \<open>The hex tokens (C6)\<close>

lemma hextable_digits:
  "list_all (\<lambda>n. fromHexChar (hextable ! n) = Some (of_nat n)) [0..<16]"
  by code_simp

lemma fromHexChar_hextable:
  assumes "n < 16"
  shows "fromHexChar (hextable ! n) = Some (of_nat n)"
proof -
  from assms have "n \<in> set [0..<16]" by simp
  with hextable_digits show ?thesis
    unfolding list_all_iff by blast
qed

lemma high_nibble: "unat (drop_bit 4 (v :: byte)) < 16"
proof -
  have "unat v < 256" using unsigned_less[of v, where 'a = nat] by simp
  then have "unat v div 16 < 16" by arith
  then show ?thesis by (simp add: drop_bit_eq_div unat_div)
qed

lemma low_nibble: "unat ((v :: byte) AND 0x0f) < 16"
proof -
  have "unat (v AND 15) \<le> unat (15 :: byte)"
    by (rule word_and_le1 [THEN word_le_nat_alt [THEN iffD1]])
  then show ?thesis by simp
qed

lemma nibbles_join: "push_bit 4 (drop_bit 4 v) OR (v AND 0x0f) = (v :: byte)"
proof -
  have m: "(0x0f :: byte) = mask 4" by (simp add: mask_eq_exp_minus_1)
  show ?thesis
    unfolding m by (rule bit_word_eqI) (auto simp: bit_simps)
qed

lemma EncodeToString_Cons:
  "EncodeToString (v # bs) =
     hextable ! unat (drop_bit 4 v) # hextable ! unat (v AND 0x0f) # EncodeToString bs"
  by (simp add: EncodeToString_def)

lemma EncodeToString_Nil: "EncodeToString [] = []"
  by (simp add: EncodeToString_def)

lemma EncodeToString_append: "EncodeToString (xs @ ys) = EncodeToString xs @ EncodeToString ys"
  by (simp add: EncodeToString_def)

lemma length_EncodeToString: "length (EncodeToString bs) = 2 * length bs"
  by (induction bs) (simp_all add: EncodeToString_def)

lemma DecodeString_EncodeToString: "DecodeString (EncodeToString bs) = Some bs"
proof (induction bs)
  case Nil
  show ?case by (simp add: EncodeToString_def)
next
  case (Cons v bs)
  have h: "fromHexChar (hextable ! unat (drop_bit 4 v)) = Some (drop_bit 4 v)"
    using fromHexChar_hextable[OF high_nibble[of v]] by simp
  have l: "fromHexChar (hextable ! unat (v AND 0x0f)) = Some (v AND 0x0f)"
    using fromHexChar_hextable[OF low_nibble[of v]] by simp
  show ?case
    by (simp only: EncodeToString_Cons DecodeString.simps h l Cons.IH nibbles_join
        prod.case option.case option.map)
qed

lemma classStringLoop_tokens:
  "classStringLoop (EncodeToString pre @ EncodeToString bs) (2 * length pre) acc =
     Inr (acc @ map (\<lambda>v. EncodeToString [v]) bs)"
proof (induction bs arbitrary: pre acc)
  case Nil
  have "EncodeToString [] = []" by (simp add: EncodeToString_def)
  then show ?case
    by (subst classStringLoop.simps) (simp add: length_EncodeToString)
next
  case (Cons v bs)
  let ?hs = "EncodeToString pre @ EncodeToString (v # bs)"
  have t2: "take 2 (EncodeToString (v # bs)) = EncodeToString [v]"
    by (simp add: EncodeToString_Cons EncodeToString_Nil)
  have e: "?hs = EncodeToString (pre @ [v]) @ EncodeToString bs"
    by (simp add: EncodeToString_def)
  have "classStringLoop ?hs (2 * length pre) acc =
        classStringLoop ?hs (2 * length pre + 2) (acc @ [EncodeToString [v]])"
    by (subst classStringLoop.simps) (simp add: length_EncodeToString t2)
  also have "\<dots> = Inr ((acc @ [EncodeToString [v]]) @ map (\<lambda>v. EncodeToString [v]) bs)"
    using Cons.IH[of "pre @ [v]" "acc @ [EncodeToString [v]]"] by (simp add: e)
  finally show ?case by simp
qed

lemma concat_tokens: "concat (map (\<lambda>v. EncodeToString [v]) bs) = EncodeToString bs"
  by (induction bs) (simp_all add: EncodeToString_def)

text \<open>
  C6. For every buffer the loop of \<^verbatim>\<open>classJSON\<close> does not panic and yields one token of
  two characters for each byte; the tokens put together decode as hex to the buffer; and
  \<^verbatim>\<open>classJSON\<close> returns these tokens beside the sections whenever \<^verbatim>\<open>parseClass\<close> returns.
\<close>

theorem hex_tokens_round_trip:
  "\<exists>toks. classStringLoop (EncodeToString bs) 0 [] = Inr toks
     \<and> length toks = length bs
     \<and> list_all (\<lambda>t. length t = 2) toks
     \<and> DecodeString (concat toks) = Some bs
     \<and> classJSON bs = map_sum id (Pair toks) (parseClass bs)"
proof -
  let ?toks = "map (\<lambda>v. EncodeToString [v]) bs"
  have l: "classStringLoop (EncodeToString bs) 0 [] = Inr ?toks"
    using classStringLoop_tokens[of "[]" bs "[]"] by (simp add: EncodeToString_def)
  have j: "classJSON bs = map_sum id (Pair ?toks) (parseClass bs)"
    by (cases "parseClass bs") (simp_all add: classJSON_def l bindp_def Let_def)
  have "list_all (\<lambda>t. length t = 2) ?toks"
    by (simp add: list_all_iff length_EncodeToString)
  with l j show ?thesis
    by (intro exI[of _ ?toks]) (simp add: concat_tokens DecodeString_EncodeToString)
qed

text \<open>The theorem at \<open>sampleClass\<close>.\<close>

theorem hex_tokens_round_trip_witness:
  "\<exists>toks. classStringLoop (EncodeToString sampleClass) 0 [] = Inr toks
     \<and> length toks = length sampleClass
     \<and> list_all (\<lambda>t. length t = 2) toks
     \<and> DecodeString (concat toks) = Some sampleClass
     \<and> classJSON sampleClass = map_sum id (Pair toks) (parseClass sampleClass)"
  by (rule hex_tokens_round_trip)

end
